theory Spec2Isabelle
  imports Main "HOL-Library.Word" "HOL-Library.AList"
begin

unbundle bit_operations_syntax

section \<open>The guest and the hypervisor, as the tracer sees them\<close>

text \<open>
  The tracer (\<^verbatim>\<open>src/src/trace-syscalls.c\<close>, and its older variant
  \<^verbatim>\<open>src/src/trace_syscalls.c\<close>) talks to the guest through libvmi and libxc.
  Those libraries are not part of the repository; this section fixes what each call the
  tracer makes does to an explicit world state. A call whose status the tracer tests can
  fail; the failure is decided by the world (inaccessible memory, a refused hypercall),
  so every error branch of the source is a branch of the model.
\<close>

type_synonym addr_t = "64 word"
type_synonym uint8_t = "8 word"

text \<open>\<^verbatim>\<open>#define GT_PAGE_OFFSET_BITS 12\<close>, \<^verbatim>\<open>#define GT_PAGE_SIZE (1 << GT_PAGE_OFFSET_BITS)\<close>,
  \<^verbatim>\<open>static uint8_t GT_BREAKPOINT_INST = 0xCC\<close>.\<close>

definition GT_PAGE_OFFSET_BITS :: nat where
  "GT_PAGE_OFFSET_BITS = 12"

definition GT_PAGE_SIZE :: nat where
  "GT_PAGE_SIZE = 2 ^ GT_PAGE_OFFSET_BITS"

definition GT_BREAKPOINT_INST :: uint8_t where
  "GT_BREAKPOINT_INST = 0xCC"

datatype vmi_mem_access_t = VMI_MEMACCESS_N | VMI_MEMACCESS_RW

text \<open>The hypercalls whose return code the tracer tests or ignores.\<close>

datatype xc_call =
    Setmaxmem "64 word"
  | Increase_reservation
  | Populate_physmap addr_t
  | Change_gfn "16 word" addr_t addr_t
  | Decrease_reservation addr_t
  | Switch_to_view "16 word"

text \<open>
  What the tracer does that the guest or the host application can observe and that is not
  kept in the world's memory: the calls of the user callbacks (with the arguments
  \<open>pid\<close>, \<open>thread_id\<close> and the data pointer) and the completed 64-bit writes to
  guest memory. The newest effect is the head of the list.
\<close>

datatype gt_effect =
    Syscall_cb nat int addr_t addr_t
  | Sysret_cb nat int addr_t addr_t
  | Print_syscall nat
  | Print_sysret nat
  | Write_64 addr_t addr_t

record vmi_world =
  translate_kv2p :: "addr_t \<Rightarrow> addr_t"
  translate_ksym2v :: "string \<Rightarrow> addr_t"
  dtb_to_pid :: "addr_t \<Rightarrow> int"
  msr_lstar :: "addr_t option"
  phys :: "addr_t \<Rightarrow> uint8_t option"
  vcpu_rip :: "nat \<Rightarrow> addr_t"
  altp2m :: "16 word \<times> addr_t \<Rightarrow> addr_t option"
  mem_event :: "16 word \<times> addr_t \<Rightarrow> vmi_mem_access_t"
  xc_accepts :: "xc_call \<Rightarrow> bool"
  fresh_gfns :: "addr_t list"
  maxmem :: "64 word"
  current_view :: "16 word"
  paused :: bool
  syscall_cb_result :: "nat \<Rightarrow> int \<Rightarrow> addr_t \<Rightarrow> addr_t \<Rightarrow> addr_t"
  effects :: "gt_effect list"

subsection \<open>Guest physical memory\<close>

text \<open>
  \<open>phys w pa = None\<close> when libvmi cannot access the byte at \<open>pa\<close>. A multi-byte
  read or write proceeds byte by byte and stops at the first inaccessible byte, as
  \<^verbatim>\<open>vmi_read_pa\<close> and \<^verbatim>\<open>vmi_write_pa\<close> return the number of bytes they transferred.
\<close>

fun read_bytes :: "(addr_t \<Rightarrow> uint8_t option) \<Rightarrow> addr_t \<Rightarrow> nat \<Rightarrow> uint8_t list" where
  "read_bytes m a 0 = []"
| "read_bytes m a (Suc n) =
     (case m a of None \<Rightarrow> [] | Some b \<Rightarrow> b # read_bytes m (a + 1) n)"

fun write_bytes ::
  "(addr_t \<Rightarrow> uint8_t option) \<Rightarrow> addr_t \<Rightarrow> uint8_t list \<Rightarrow> (addr_t \<Rightarrow> uint8_t option) \<times> nat" where
  "write_bytes m a [] = (m, 0)"
| "write_bytes m a (b # bs) =
     (case m a of
        None \<Rightarrow> (m, 0)
      | Some old \<Rightarrow> (case write_bytes (m(a \<mapsto> b)) (a + 1) bs of (m', n) \<Rightarrow> (m', Suc n)))"

definition vmi_read_pa :: "vmi_world \<Rightarrow> addr_t \<Rightarrow> nat \<Rightarrow> uint8_t list" where
  "vmi_read_pa w pa count = read_bytes (phys w) pa count"

definition vmi_write_pa :: "vmi_world \<Rightarrow> addr_t \<Rightarrow> uint8_t list \<Rightarrow> nat \<times> vmi_world" where
  "vmi_write_pa w pa buf =
     (case write_bytes (phys w) pa buf of (m', n) \<Rightarrow> (n, w\<lparr>phys := m'\<rparr>))"

definition vmi_read_8_pa :: "vmi_world \<Rightarrow> addr_t \<Rightarrow> uint8_t option" where
  "vmi_read_8_pa w pa = phys w pa"

definition vmi_write_8_pa :: "vmi_world \<Rightarrow> addr_t \<Rightarrow> uint8_t \<Rightarrow> bool \<times> vmi_world" where
  "vmi_write_8_pa w pa b =
     (case phys w pa of
        None \<Rightarrow> (False, w)
      | Some old \<Rightarrow> (True, w\<lparr>phys := (phys w)(pa \<mapsto> b)\<rparr>))"

text \<open>64-bit words are stored little-endian (the guest is x86-64).\<close>

definition bytes_of_64 :: "addr_t \<Rightarrow> uint8_t list" where
  "bytes_of_64 v = map (\<lambda>i. ucast (drop_bit (8 * i) v)) [0..<8]"

fun word_of_bytes :: "uint8_t list \<Rightarrow> addr_t" where
  "word_of_bytes [] = 0"
| "word_of_bytes (b # bs) = ucast b OR push_bit 8 (word_of_bytes bs)"

definition vmi_read_64_pa :: "vmi_world \<Rightarrow> addr_t \<Rightarrow> addr_t option" where
  "vmi_read_64_pa w pa =
     (let bs = read_bytes (phys w) pa 8
      in if length bs = 8 then Some (word_of_bytes bs) else None)"

definition vmi_write_64_pa :: "vmi_world \<Rightarrow> addr_t \<Rightarrow> addr_t \<Rightarrow> bool \<times> vmi_world" where
  "vmi_write_64_pa w pa v =
     (case write_bytes (phys w) pa (bytes_of_64 v) of
        (m', n) \<Rightarrow>
          if n = 8 then (True, w\<lparr>phys := m', effects := Write_64 pa v # effects w\<rparr>)
          else (False, w\<lparr>phys := m'\<rparr>))"

subsection \<open>Registers, events and hypercalls\<close>

definition vmi_set_vcpureg_rip :: "vmi_world \<Rightarrow> addr_t \<Rightarrow> nat \<Rightarrow> vmi_world" where
  "vmi_set_vcpureg_rip w v vcpu = w\<lparr>vcpu_rip := (vcpu_rip w)(vcpu := v)\<rparr>"

definition vmi_set_mem_event ::
  "vmi_world \<Rightarrow> addr_t \<Rightarrow> vmi_mem_access_t \<Rightarrow> 16 word \<Rightarrow> vmi_world" where
  "vmi_set_mem_event w gfn access view = w\<lparr>mem_event := (mem_event w)((view, gfn) := access)\<rparr>"

definition vmi_pause_vm :: "vmi_world \<Rightarrow> vmi_world" where
  "vmi_pause_vm w = w\<lparr>paused := True\<rparr>"

definition vmi_resume_vm :: "vmi_world \<Rightarrow> vmi_world" where
  "vmi_resume_vm w = w\<lparr>paused := False\<rparr>"

definition xc_domain_setmaxmem :: "vmi_world \<Rightarrow> 64 word \<Rightarrow> bool \<times> vmi_world" where
  "xc_domain_setmaxmem w sz =
     (if xc_accepts w (Setmaxmem sz) then (True, w\<lparr>maxmem := sz\<rparr>) else (False, w))"

text \<open>The hypervisor chooses the frame number it hands out: the head of \<open>fresh_gfns\<close>.\<close>

definition xc_domain_increase_reservation_exact :: "vmi_world \<Rightarrow> addr_t option \<times> vmi_world" where
  "xc_domain_increase_reservation_exact w =
     (case fresh_gfns w of
        [] \<Rightarrow> (None, w)
      | g # gs \<Rightarrow>
          if xc_accepts w Increase_reservation then (Some g, w\<lparr>fresh_gfns := gs\<rparr>)
          else (None, w))"

definition frame_of :: "addr_t \<Rightarrow> addr_t" where
  "frame_of pa = drop_bit GT_PAGE_OFFSET_BITS pa"

definition xc_domain_populate_physmap_exact :: "vmi_world \<Rightarrow> addr_t \<Rightarrow> bool \<times> vmi_world" where
  "xc_domain_populate_physmap_exact w gfn =
     (if xc_accepts w (Populate_physmap gfn)
      then (True, w\<lparr>phys := (\<lambda>a. if frame_of a = gfn then Some 0 else phys w a)\<rparr>)
      else (False, w))"

definition xc_domain_decrease_reservation_exact :: "vmi_world \<Rightarrow> addr_t \<Rightarrow> bool \<times> vmi_world" where
  "xc_domain_decrease_reservation_exact w gfn =
     (if xc_accepts w (Decrease_reservation gfn)
      then (True, w\<lparr>phys := (\<lambda>a. if frame_of a = gfn then None else phys w a)\<rparr>)
      else (False, w))"

text \<open>
  \<^verbatim>\<open>xc_altp2m_change_gfn(xch, domid, view, old_gfn, new_gfn)\<close> makes guest frame
  \<open>old_gfn\<close> of \<open>view\<close> show the contents of \<open>new_gfn\<close>; with \<open>new_gfn = ~0\<close> it drops
  the remapping of \<open>old_gfn\<close>, which then shows the host mapping again.
\<close>

definition xc_altp2m_change_gfn ::
  "vmi_world \<Rightarrow> 16 word \<Rightarrow> addr_t \<Rightarrow> addr_t \<Rightarrow> bool \<times> vmi_world" where
  "xc_altp2m_change_gfn w view old_gfn new_gfn =
     (if xc_accepts w (Change_gfn view old_gfn new_gfn)
      then (True, w\<lparr>altp2m := (altp2m w)((view, old_gfn) :=
                          (if new_gfn = - 1 then None else Some new_gfn))\<rparr>)
      else (False, w))"

definition xc_altp2m_switch_to_view :: "vmi_world \<Rightarrow> 16 word \<Rightarrow> bool \<times> vmi_world" where
  "xc_altp2m_switch_to_view w view =
     (if xc_accepts w (Switch_to_view view) then (True, w\<lparr>current_view := view\<rparr>)
      else (False, w))"

section \<open>The trampoline locator\<close>

text \<open>
  \<^verbatim>\<open>gt_find_trampoline_addr\<close>: the loop over \<^verbatim>\<open>code[curr_inst]\<close>, with
  \<^verbatim>\<open>trampoline_addr\<close> still 0 when the loop runs off the page.
\<close>

function gt_find_int3 :: "uint8_t list \<Rightarrow> addr_t \<Rightarrow> nat \<Rightarrow> addr_t" where
  "gt_find_int3 code lstar curr_inst =
     (if curr_inst < GT_PAGE_SIZE
      then (if code ! curr_inst = GT_BREAKPOINT_INST then lstar + of_nat curr_inst
            else gt_find_int3 code lstar (curr_inst + 1))
      else 0)"
  by pat_completeness auto
termination
  by (relation "measure (\<lambda>(code, lstar, curr_inst). GT_PAGE_SIZE - curr_inst)") auto

declare gt_find_int3.simps [simp del]

definition gt_find_trampoline_addr :: "vmi_world \<Rightarrow> addr_t" where
  "gt_find_trampoline_addr w =
     (case msr_lstar w of
        None \<Rightarrow> 0
      | Some lstar \<Rightarrow>
          let lstar_p = translate_kv2p w lstar in
          if lstar_p = 0 then 0
          else
            let code = vmi_read_pa w lstar_p GT_PAGE_SIZE in
            if length code < GT_PAGE_SIZE then 0
            else gt_find_int3 code lstar 0)"

section \<open>The tracer's own state\<close>

text \<open>
  The C structures \<^verbatim>\<open>gt_page_record\<close>, \<^verbatim>\<open>gt_paddr_record\<close> and
  \<^verbatim>\<open>gt_syscall_state\<close>. Records allocated with \<^verbatim>\<open>g_new0\<close> and shared by
  pointer live in a store: a pointer is a natural number, \<open>paddr_store\<close> and
  \<open>page_store\<close> give the contents of a cell, and \<open>next_ptr\<close> is the next fresh
  pointer. \<^verbatim>\<open>g_free\<close> leaves the store as it is (nothing below reads a freed cell).
  The back pointers \<^verbatim>\<open>loop\<close> are left out: there is one loop, the state itself.
  A callback (\<^verbatim>\<open>GTSyscallFunc\<close>, \<^verbatim>\<open>GTSysretFunc\<close>) is the address of a function of
  the host application, a natural number; calling it is recorded in \<open>effects\<close>, and
  what the system-call callback returns is \<open>syscall_cb_result\<close> of the world. The
  \<^verbatim>\<open>data\<close> field of \<^verbatim>\<open>gt_syscall_state\<close> is \<open>state_data\<close> here (a record field
  name is global).
\<close>

record gt_page_record =
  frame :: addr_t
  shadow_frame :: addr_t
  children :: "(addr_t \<times> nat) list"

record gt_paddr_record =
  offset :: addr_t
  syscall_cb :: nat
  sysret_cb :: nat
  parent :: nat
  data :: addr_t

record gt_syscall_state =
  syscall_paddr_record :: nat
  state_data :: addr_t
  thread_id :: addr_t

text \<open>
  \<^verbatim>\<open>GTLoop\<close> (declared in \<^verbatim>\<open>guestrace-private.h\<close>, which is not among the sources;
  the fields are the ones \<^verbatim>\<open>trace-syscalls.c\<close> uses), together with the file's
  global \<^verbatim>\<open>gt_interrupted\<close> and the store. The three GLib hash tables:
  \<open>gt_page_translation\<close> has no destroy notifier and is only looked up, so it is a
  map; the other two have a value destroy notifier and are walked on
  \<^verbatim>\<open>g_hash_table_remove_all\<close>, so they are association lists with distinct keys,
  walked in list order.
\<close>

record GTLoop =
  vmi :: vmi_world
  shadow_view :: "16 word"
  init_mem_size :: "64 word"
  curr_mem_size :: "64 word"
  return_addr :: addr_t
  trampoline_addr :: addr_t
  return_addr_width :: addr_t
  gt_page_translation :: "addr_t \<Rightarrow> addr_t option"
  gt_page_record_collection :: "(addr_t \<times> nat) list"
  gt_ret_addr_mapping :: "(addr_t \<times> gt_syscall_state) list"
  page_store :: "nat \<Rightarrow> gt_page_record"
  paddr_store :: "nat \<Rightarrow> gt_paddr_record"
  next_ptr :: nat
  gt_interrupted :: bool

text \<open>\<^verbatim>\<open>(addr_t) g_hash_table_lookup(loop->gt_page_translation, frame)\<close>: \<^verbatim>\<open>NULL\<close>, that is 0,
  when the key is absent.\<close>

definition lookup_shadow :: "GTLoop \<Rightarrow> addr_t \<Rightarrow> addr_t" where
  "lookup_shadow l fr = (case gt_page_translation l fr of None \<Rightarrow> 0 | Some sh \<Rightarrow> sh)"

definition offset_of :: "addr_t \<Rightarrow> addr_t" where
  "offset_of pa = pa mod of_nat GT_PAGE_SIZE"

definition frame_base :: "addr_t \<Rightarrow> addr_t" where
  "frame_base fr = push_bit GT_PAGE_OFFSET_BITS fr"

subsection \<open>Looking a breakpoint up\<close>

definition gt_paddr_record_from_pa :: "GTLoop \<Rightarrow> addr_t \<Rightarrow> nat option" where
  "gt_paddr_record_from_pa l pa =
     (let shadow = lookup_shadow l (frame_of pa) in
      if shadow = 0 then None
      else
        case map_of (gt_page_record_collection l) shadow of
          None \<Rightarrow> None
        | Some page_record \<Rightarrow> map_of (children (page_store l page_record)) (offset_of pa))"

definition gt_paddr_record_from_va :: "GTLoop \<Rightarrow> addr_t \<Rightarrow> nat option" where
  "gt_paddr_record_from_va l va = gt_paddr_record_from_pa l (translate_kv2p (vmi l) va)"

subsection \<open>Installing a breakpoint\<close>

text \<open>\<^verbatim>\<open>gt_allocate_shadow_frame\<close>. A failed \<^verbatim>\<open>xc_domain_increase_reservation_exact\<close>
  leaves \<^verbatim>\<open>gfn\<close> at its initial 0.\<close>

definition gt_allocate_shadow_frame :: "GTLoop \<Rightarrow> addr_t \<times> GTLoop" where
  "gt_allocate_shadow_frame l =
     (let proposed_mem_size = curr_mem_size l + of_nat GT_PAGE_SIZE in
      case xc_domain_setmaxmem (vmi l) proposed_mem_size of
        (False, w1) \<Rightarrow> (0, l\<lparr>vmi := w1\<rparr>)
      | (True, w1) \<Rightarrow>
          (case xc_domain_increase_reservation_exact w1 of
             (None, w2) \<Rightarrow> (0, l\<lparr>vmi := w2, curr_mem_size := proposed_mem_size\<rparr>)
           | (Some gfn, w2) \<Rightarrow>
               (case xc_domain_populate_physmap_exact w2 gfn of
                  (False, w3) \<Rightarrow> (0, l\<lparr>vmi := w3, curr_mem_size := proposed_mem_size\<rparr>)
                | (True, w3) \<Rightarrow> (gfn, l\<lparr>vmi := w3, curr_mem_size := proposed_mem_size\<rparr>))))"

text \<open>
  \<^verbatim>\<open>gt_setup_mem_trap\<close>, in the three blocks of the source. The first block
  (\<^verbatim>\<open>if (0 == shadow)\<close>) yields the shadow frame, or \<open>None\<close> where the source jumps to
  \<^verbatim>\<open>done\<close> with \<^verbatim>\<open>paddr_record == NULL\<close>.
\<close>

definition gt_setup_shadow :: "GTLoop \<Rightarrow> addr_t \<Rightarrow> addr_t option \<times> GTLoop" where
  "gt_setup_shadow l fr =
     (let shadow = lookup_shadow l fr in
      if shadow = 0 then
        (case gt_allocate_shadow_frame l of
           (shadow', l1) \<Rightarrow>
             if shadow' = 0 then (None, l1)
             else
               let l2 = l1\<lparr>gt_page_translation := (gt_page_translation l1)(fr \<mapsto> shadow')\<rparr> in
               (case xc_altp2m_change_gfn (vmi l2) (shadow_view l2) fr shadow' of
                  (False, w) \<Rightarrow> (None, l2\<lparr>vmi := w\<rparr>)
                | (True, w) \<Rightarrow> (Some shadow', l2\<lparr>vmi := w\<rparr>)))
      else (Some shadow, l))"

text \<open>
  The second block (\<^verbatim>\<open>page_record = g_hash_table_lookup(...)\<close>): either the function
  is done (\<open>Inl\<close> its return value: \<^verbatim>\<open>NULL\<close> after a failed page copy, the record
  found for an address that is trapped already), or it goes on with the page record
  (\<open>Inr\<close>).
\<close>

definition gt_setup_page_record ::
  "GTLoop \<Rightarrow> addr_t \<Rightarrow> addr_t \<Rightarrow> addr_t \<Rightarrow> (nat option + nat) \<times> GTLoop" where
  "gt_setup_page_record l fr shadow shadow_offset =
     (case map_of (gt_page_record_collection l) shadow of
        None \<Rightarrow>
          let buff = vmi_read_pa (vmi l) (frame_base fr) GT_PAGE_SIZE in
          if length buff \<noteq> GT_PAGE_SIZE then (Inl None, l)
          else
            (case vmi_write_pa (vmi l) (frame_base shadow) buff of
               (ret, w) \<Rightarrow>
                 if ret \<noteq> GT_PAGE_SIZE then (Inl None, l\<lparr>vmi := w\<rparr>)
                 else
                   let page_record = next_ptr l in
                   (Inr page_record,
                    l\<lparr>vmi := vmi_set_mem_event w fr VMI_MEMACCESS_RW (shadow_view l),
                      next_ptr := Suc page_record,
                      page_store := (page_store l)(page_record :=
                        \<lparr>frame = fr, shadow_frame = shadow, children = []\<rparr>),
                      gt_page_record_collection :=
                        AList.update shadow page_record (gt_page_record_collection l)\<rparr>))
      | Some page_record \<Rightarrow>
          (case map_of (children (page_store l page_record)) shadow_offset of
             Some paddr_record \<Rightarrow> (Inl (Some paddr_record), l)
           | None \<Rightarrow> (Inr page_record, l)))"

text \<open>
  The last block: the new record, the breakpoint byte, the insertion among the page's
  children. When \<^verbatim>\<open>vmi_write_8_pa\<close> fails the source jumps to \<^verbatim>\<open>done\<close> with
  \<^verbatim>\<open>paddr_record\<close> already set, so the new record is returned although it is in no
  table.
\<close>

definition gt_setup_paddr_record ::
  "GTLoop \<Rightarrow> nat \<Rightarrow> addr_t \<Rightarrow> addr_t \<Rightarrow> nat \<Rightarrow> nat \<Rightarrow> addr_t \<Rightarrow> nat option \<times> GTLoop" where
  "gt_setup_paddr_record l page_record shadow shadow_offset scb rcb user_data =
     (let paddr_record = next_ptr l;
          l1 = l\<lparr>next_ptr := Suc paddr_record,
                 paddr_store := (paddr_store l)(paddr_record :=
                   \<lparr>offset = shadow_offset, syscall_cb = scb, sysret_cb = rcb,
                    parent = page_record, data = user_data\<rparr>)\<rparr>
      in
        case vmi_write_8_pa (vmi l1) (frame_base shadow + shadow_offset) GT_BREAKPOINT_INST of
          (False, w) \<Rightarrow> (Some paddr_record, l1\<lparr>vmi := w\<rparr>)
        | (True, w) \<Rightarrow>
            (Some paddr_record,
             l1\<lparr>vmi := w,
                page_store := (page_store l1)(page_record :=
                  (page_store l1 page_record)\<lparr>children :=
                     AList.update shadow_offset paddr_record
                       (children (page_store l1 page_record))\<rparr>)\<rparr>))"

definition gt_setup_mem_trap ::
  "GTLoop \<Rightarrow> addr_t \<Rightarrow> nat \<Rightarrow> nat \<Rightarrow> addr_t \<Rightarrow> nat option \<times> GTLoop" where
  "gt_setup_mem_trap l va scb rcb user_data =
     (let pa = translate_kv2p (vmi l) va in
      if pa = 0 then (None, l)
      else
        let fr = frame_of pa; shadow_offset = offset_of pa in
        case gt_setup_shadow l fr of
          (None, l1) \<Rightarrow> (None, l1)
        | (Some shadow, l1) \<Rightarrow>
            (case gt_setup_page_record l1 fr shadow shadow_offset of
               (Inl result, l2) \<Rightarrow> (result, l2)
             | (Inr page_record, l2) \<Rightarrow>
                 gt_setup_paddr_record l2 page_record shadow shadow_offset scb rcb user_data))"

text \<open>\<^verbatim>\<open>GTSyscallCallback\<close>: an entry of the array \<^verbatim>\<open>gt_loop_set_cbs\<close> takes.\<close>

record GTSyscallCallback =
  cb_name :: string
  cb_syscall_cb :: nat
  cb_sysret_cb :: nat
  cb_user_data :: addr_t

definition gt_loop_set_cb ::
  "GTLoop \<Rightarrow> string \<Rightarrow> nat \<Rightarrow> nat \<Rightarrow> addr_t \<Rightarrow> bool \<times> GTLoop" where
  "gt_loop_set_cb l kernel_func scb rcb user_data =
     (let l0 = l\<lparr>vmi := vmi_pause_vm (vmi l)\<rparr>;
          sysaddr = translate_ksym2v (vmi l0) kernel_func
      in
        if sysaddr = 0 then (False, l0\<lparr>vmi := vmi_resume_vm (vmi l0)\<rparr>)
        else
          case gt_setup_mem_trap l0 sysaddr scb rcb user_data of
            (None, l1) \<Rightarrow> (False, l1\<lparr>vmi := vmi_resume_vm (vmi l1)\<rparr>)
          | (Some syscall_trap, l1) \<Rightarrow> (True, l1\<lparr>vmi := vmi_resume_vm (vmi l1)\<rparr>))"

text \<open>
  \<^verbatim>\<open>gt_loop_set_cbs\<close>: the list holds the entries of the array before the entry whose
  name is \<^verbatim>\<open>NULL\<close>, which ends the array; the third argument is \<^verbatim>\<open>count\<close>.
\<close>

fun gt_loop_set_cbs_from :: "GTLoop \<Rightarrow> GTSyscallCallback list \<Rightarrow> int \<Rightarrow> int \<times> GTLoop" where
  "gt_loop_set_cbs_from l [] count = (count, l)"
| "gt_loop_set_cbs_from l (c # cs) count =
     (if gt_interrupted l then (count, l)
      else
        case gt_loop_set_cb l (cb_name c) (cb_syscall_cb c) (cb_sysret_cb c) (cb_user_data c) of
          (ok, l') \<Rightarrow> gt_loop_set_cbs_from l' cs (if ok then count + 1 else count))"

definition gt_loop_set_cbs :: "GTLoop \<Rightarrow> GTSyscallCallback list \<Rightarrow> int \<times> GTLoop" where
  "gt_loop_set_cbs l callbacks = gt_loop_set_cbs_from l callbacks 0"

section \<open>The trap dispatcher\<close>

text \<open>
  The fields of \<^verbatim>\<open>vmi_event_t\<close> the dispatcher reads or writes:
  \<^verbatim>\<open>interrupt_event.gla\<close>, \<^verbatim>\<open>interrupt_event.reinject\<close>, \<^verbatim>\<open>slat_id\<close>,
  \<^verbatim>\<open>x86_regs->rsp\<close>, \<^verbatim>\<open>x86_regs->cr3\<close> and \<^verbatim>\<open>vcpu_id\<close>. An
  \<^verbatim>\<open>event_response_t\<close> is the set of the flags that are or-ed together;
  \<^verbatim>\<open>VMI_EVENT_RESPONSE_NONE\<close> is the empty set.
\<close>

record vmi_event =
  gla :: addr_t
  reinject :: int
  slat_id :: "16 word"
  rsp :: addr_t
  cr3 :: addr_t
  vcpu_id :: nat

datatype vmi_event_response_flag =
    VMI_EVENT_RESPONSE_EMULATE
  | VMI_EVENT_RESPONSE_TOGGLE_SINGLESTEP
  | VMI_EVENT_RESPONSE_VMM_PAGETABLE_ID

type_synonym event_response_t = "vmi_event_response_flag set"

definition VMI_EVENT_RESPONSE_NONE :: event_response_t where
  "VMI_EVENT_RESPONSE_NONE = {}"

definition call_syscall_cb ::
  "vmi_world \<Rightarrow> nat \<Rightarrow> int \<Rightarrow> addr_t \<Rightarrow> addr_t \<Rightarrow> addr_t \<times> vmi_world" where
  "call_syscall_cb w cb pid tid d =
     (syscall_cb_result w cb pid tid d, w\<lparr>effects := Syscall_cb cb pid tid d # effects w\<rparr>)"

definition call_sysret_cb :: "vmi_world \<Rightarrow> nat \<Rightarrow> int \<Rightarrow> addr_t \<Rightarrow> addr_t \<Rightarrow> vmi_world" where
  "call_sysret_cb w cb pid tid d = w\<lparr>effects := Sysret_cb cb pid tid d # effects w\<rparr>"

text \<open>\<^verbatim>\<open>gt_restore_return_addr\<close>, the value destroy notifier of
  \<^verbatim>\<open>gt_ret_addr_mapping\<close>.\<close>

definition gt_restore_return_addr :: "GTLoop \<Rightarrow> gt_syscall_state \<Rightarrow> GTLoop" where
  "gt_restore_return_addr l sys_state =
     (let pa = translate_kv2p (vmi l) (thread_id sys_state) in
      if pa = 0 then l
      else case vmi_write_64_pa (vmi l) pa (return_addr l) of (status, w) \<Rightarrow> l\<lparr>vmi := w\<rparr>)"

text \<open>
  GLib on a table made by \<^verbatim>\<open>g_hash_table_new_full\<close> with a value destroy notifier:
  \<^verbatim>\<open>g_hash_table_insert\<close> on a key that is present replaces the value and calls the
  notifier on the old one; \<^verbatim>\<open>g_hash_table_remove\<close> calls it on the removed value;
  \<^verbatim>\<open>g_hash_table_remove_all\<close> calls it on every value.
\<close>

definition gt_ret_addr_mapping_insert :: "GTLoop \<Rightarrow> addr_t \<Rightarrow> gt_syscall_state \<Rightarrow> GTLoop" where
  "gt_ret_addr_mapping_insert l key st =
     (let l1 = l\<lparr>gt_ret_addr_mapping := AList.update key st (gt_ret_addr_mapping l)\<rparr> in
      case map_of (gt_ret_addr_mapping l) key of
        None \<Rightarrow> l1
      | Some old \<Rightarrow> gt_restore_return_addr l1 old)"

definition gt_ret_addr_mapping_remove :: "GTLoop \<Rightarrow> addr_t \<Rightarrow> GTLoop" where
  "gt_ret_addr_mapping_remove l key =
     (case map_of (gt_ret_addr_mapping l) key of
        None \<Rightarrow> l
      | Some old \<Rightarrow>
          gt_restore_return_addr
            (l\<lparr>gt_ret_addr_mapping := AList.delete key (gt_ret_addr_mapping l)\<rparr>) old)"

fun gt_restore_all :: "GTLoop \<Rightarrow> (addr_t \<times> gt_syscall_state) list \<Rightarrow> GTLoop" where
  "gt_restore_all l [] = l"
| "gt_restore_all l ((key, st) # rest) = gt_restore_all (gt_restore_return_addr l st) rest"

definition gt_ret_addr_mapping_remove_all :: "GTLoop \<Rightarrow> GTLoop" where
  "gt_ret_addr_mapping_remove_all l =
     gt_restore_all (l\<lparr>gt_ret_addr_mapping := []\<rparr>) (gt_ret_addr_mapping l)"

definition gt_breakpoint_cb :: "GTLoop \<Rightarrow> vmi_event \<Rightarrow> event_response_t \<times> vmi_event \<times> GTLoop" where
  "gt_breakpoint_cb l event0 =
     (let event = event0\<lparr>reinject := 0\<rparr> in
      if gla event \<noteq> trampoline_addr l then
        (case gt_paddr_record_from_va l (gla event) of
           None \<Rightarrow> (VMI_EVENT_RESPONSE_NONE, event\<lparr>reinject := 1\<rparr>, l)
         | Some record \<Rightarrow>
             let event1 = event\<lparr>slat_id := 0\<rparr>;
                 response = {VMI_EVENT_RESPONSE_TOGGLE_SINGLESTEP,
                             VMI_EVENT_RESPONSE_VMM_PAGETABLE_ID};
                 tid = rsp event1;
                 return_loc = translate_kv2p (vmi l) tid
             in
               if return_loc = 0 then (response, event1, l)
               else
                 (case vmi_read_64_pa (vmi l) return_loc of
                    None \<Rightarrow> (response, event1, l)
                  | Some ra \<Rightarrow>
                      if ra \<noteq> return_addr l then (response, event1, l)
                      else
                        let pid = dtb_to_pid (vmi l) (cr3 event1) in
                        (case call_syscall_cb (vmi l) (syscall_cb (paddr_store l record))
                                pid tid (data (paddr_store l record)) of
                           (d, w1) \<Rightarrow>
                             let state = \<lparr>syscall_paddr_record = record, state_data = d,
                                          thread_id = tid\<rparr>;
                                 l2 = gt_ret_addr_mapping_insert (l\<lparr>vmi := w1\<rparr>) tid state
                             in
                               (case vmi_write_64_pa (vmi l2) return_loc (trampoline_addr l2) of
                                  (status, w3) \<Rightarrow> (response, event1, l2\<lparr>vmi := w3\<rparr>)))))
      else
        let tid = rsp event - return_addr_width l in
        (case map_of (gt_ret_addr_mapping l) tid of
           None \<Rightarrow> (VMI_EVENT_RESPONSE_NONE, event, l)
         | Some state \<Rightarrow>
             let pid = dtb_to_pid (vmi l) (cr3 event);
                 w1 = call_sysret_cb (vmi l)
                        (sysret_cb (paddr_store l (syscall_paddr_record state)))
                        pid tid (state_data state);
                 w2 = vmi_set_vcpureg_rip w1 (return_addr l) (vcpu_id event)
             in (VMI_EVENT_RESPONSE_NONE, event,
                 gt_ret_addr_mapping_remove (l\<lparr>vmi := w2\<rparr>) tid)))"

section \<open>Teardown\<close>

definition gt_remove_breakpoint :: "GTLoop \<Rightarrow> nat \<Rightarrow> bool \<times> GTLoop" where
  "gt_remove_breakpoint l paddr_record =
     (let fr = frame (page_store l (parent (paddr_store l paddr_record)));
          shadow = shadow_frame (page_store l (parent (paddr_store l paddr_record)));
          off = offset (paddr_store l paddr_record)
      in
        case vmi_read_8_pa (vmi l) (frame_base fr + off) of
          None \<Rightarrow> (False, l)
        | Some curr_inst \<Rightarrow>
            (case vmi_write_8_pa (vmi l) (frame_base shadow + off) curr_inst of
               (status, w) \<Rightarrow> (status, l\<lparr>vmi := w\<rparr>)))"

definition gt_destroy_paddr_record :: "GTLoop \<Rightarrow> nat \<Rightarrow> GTLoop" where
  "gt_destroy_paddr_record l paddr_record = snd (gt_remove_breakpoint l paddr_record)"

fun gt_destroy_children :: "GTLoop \<Rightarrow> (addr_t \<times> nat) list \<Rightarrow> GTLoop" where
  "gt_destroy_children l [] = l"
| "gt_destroy_children l ((off, paddr_record) # rest) =
     gt_destroy_children (gt_destroy_paddr_record l paddr_record) rest"

definition gt_destroy_page_record :: "GTLoop \<Rightarrow> nat \<Rightarrow> GTLoop" where
  "gt_destroy_page_record l page_record =
     (let l1 = gt_destroy_children l (children (page_store l page_record));
          w2 = vmi_set_mem_event (vmi l1) (frame (page_store l1 page_record))
                 VMI_MEMACCESS_N (shadow_view l1);
          w3 = snd (xc_altp2m_change_gfn w2 (shadow_view l1)
                      (shadow_frame (page_store l1 page_record)) (- 1));
          w4 = snd (xc_domain_decrease_reservation_exact w3
                      (shadow_frame (page_store l1 page_record)))
      in l1\<lparr>vmi := w4\<rparr>)"

fun gt_destroy_page_records :: "GTLoop \<Rightarrow> (addr_t \<times> nat) list \<Rightarrow> GTLoop" where
  "gt_destroy_page_records l [] = l"
| "gt_destroy_page_records l ((shadow, page_record) # rest) =
     gt_destroy_page_records (gt_destroy_page_record l page_record) rest"

definition gt_page_record_collection_remove_all :: "GTLoop \<Rightarrow> GTLoop" where
  "gt_page_record_collection_remove_all l =
     gt_destroy_page_records (l\<lparr>gt_page_record_collection := []\<rparr>) (gt_page_record_collection l)"

definition gt_loop_quit :: "GTLoop \<Rightarrow> GTLoop" where
  "gt_loop_quit l =
     (let l0 = l\<lparr>vmi := vmi_pause_vm (vmi l)\<rparr>;
          l1 = l0\<lparr>gt_page_translation := Map.empty\<rparr>;
          l2 = gt_ret_addr_mapping_remove_all l1;
          l3 = gt_page_record_collection_remove_all l2;
          w4 = snd (xc_altp2m_switch_to_view (vmi l3) 0)
      in l3\<lparr>vmi := vmi_resume_vm w4, gt_interrupted := True\<rparr>)"

section \<open>The identifier-based variant\<close>

text \<open>
  \<^verbatim>\<open>src/src/trace_syscalls.c\<close>: \<^verbatim>\<open>vf_state\<close>, with the file's globals
  \<^verbatim>\<open>return_point_addr\<close> and \<^verbatim>\<open>trampoline_addr\<close> (here \<open>vf_trampoline_addr\<close>).
  \<^verbatim>\<open>vf_ret_addr_mapping\<close> is made by \<^verbatim>\<open>g_hash_table_new\<close>: it has no destroy
  notifier and maps a thread to the record of its breakpoint. The printers
  \<^verbatim>\<open>os_functions->print_syscall\<close> and \<^verbatim>\<open>print_sysret\<close> are recorded in
  \<open>effects\<close>.
\<close>

record vf_page_record =
  vf_frame :: addr_t
  shadow_page :: addr_t
  vf_children :: "(addr_t \<times> nat) list"

record vf_state =
  vf_vmi :: vmi_world
  vf_shadow_view :: "16 word"
  return_point_addr :: addr_t
  vf_trampoline_addr :: addr_t
  vf_page_translation :: "addr_t \<Rightarrow> addr_t option"
  vf_page_record_collection :: "(addr_t \<times> nat) list"
  vf_ret_addr_mapping :: "addr_t \<Rightarrow> nat option"
  vf_page_store :: "nat \<Rightarrow> vf_page_record"

definition vf_paddr_record_from_pa :: "vf_state \<Rightarrow> addr_t \<Rightarrow> nat option" where
  "vf_paddr_record_from_pa s pa =
     (let shadow = (case vf_page_translation s (frame_of pa) of None \<Rightarrow> 0 | Some sh \<Rightarrow> sh) in
      if shadow = 0 then None
      else
        case map_of (vf_page_record_collection s) shadow of
          None \<Rightarrow> None
        | Some page_record \<Rightarrow> map_of (vf_children (vf_page_store s page_record)) (offset_of pa))"

definition vf_paddr_record_from_va :: "vf_state \<Rightarrow> addr_t \<Rightarrow> nat option" where
  "vf_paddr_record_from_va s va = vf_paddr_record_from_pa s (translate_kv2p (vf_vmi s) va)"

text \<open>
  \<^verbatim>\<open>vf_breakpoint_cb\<close>. The source does not test the status of
  \<^verbatim>\<open>vmi_read_64_pa\<close>; when the read fails \<^verbatim>\<open>ret_addr\<close> keeps the indeterminate
  value of an uninitialised local, the argument \<open>uninit\<close>.
\<close>

definition vf_breakpoint_cb ::
  "addr_t \<Rightarrow> vf_state \<Rightarrow> vmi_event \<Rightarrow> event_response_t \<times> vmi_event \<times> vf_state" where
  "vf_breakpoint_cb uninit s event0 =
     (let event = event0\<lparr>reinject := 0\<rparr> in
      if gla event \<noteq> vf_trampoline_addr s then
        (case vf_paddr_record_from_va s (gla event) of
           None \<Rightarrow> ({VMI_EVENT_RESPONSE_EMULATE}, event\<lparr>reinject := 1\<rparr>, s)
         | Some paddr_record \<Rightarrow>
             let tid = rsp event;
                 ret_loc = translate_kv2p (vf_vmi s) tid;
                 ret_addr = (case vmi_read_64_pa (vf_vmi s) ret_loc of
                               None \<Rightarrow> uninit | Some v \<Rightarrow> v);
                 s1 = (if ret_addr = return_point_addr s then
                         let w1 = (vf_vmi s)\<lparr>effects := Print_syscall paddr_record #
                                                effects (vf_vmi s)\<rparr>;
                             w2 = snd (vmi_write_64_pa w1 ret_loc (vf_trampoline_addr s))
                         in s\<lparr>vf_vmi := w2,
                              vf_ret_addr_mapping := (vf_ret_addr_mapping s)(tid \<mapsto> paddr_record)\<rparr>
                       else s)
             in ({VMI_EVENT_RESPONSE_TOGGLE_SINGLESTEP, VMI_EVENT_RESPONSE_VMM_PAGETABLE_ID},
                 event\<lparr>slat_id := 0\<rparr>, s1))
      else
        let tid = rsp event - 8 in
        (case vf_ret_addr_mapping s tid of
           None \<Rightarrow> (VMI_EVENT_RESPONSE_NONE, event, s)
         | Some paddr_record \<Rightarrow>
             let w1 = (vf_vmi s)\<lparr>effects := Print_sysret paddr_record # effects (vf_vmi s)\<rparr>;
                 w2 = snd (vmi_write_64_pa w1 (translate_kv2p w1 tid) (return_point_addr s));
                 w3 = vmi_set_vcpureg_rip w2 (return_point_addr s) (vcpu_id event)
             in (VMI_EVENT_RESPONSE_NONE, event,
                 s\<lparr>vf_vmi := w3, vf_ret_addr_mapping := (vf_ret_addr_mapping s)(tid := None)\<rparr>)))"

text \<open>The callback invocations among the recorded effects (the 64-bit writes left out).\<close>

definition callbacks_of :: "gt_effect list \<Rightarrow> gt_effect list" where
  "callbacks_of es = filter (\<lambda>e. case e of Write_64 pa v \<Rightarrow> False | _ \<Rightarrow> True) es"

text \<open>What \<^verbatim>\<open>gt_loop_set_cb\<close> returns for each entry of a batch, in order, each entry
  run in the state its predecessors left.\<close>

fun gt_loop_set_cb_results :: "GTLoop \<Rightarrow> GTSyscallCallback list \<Rightarrow> bool list" where
  "gt_loop_set_cb_results l [] = []"
| "gt_loop_set_cb_results l (c # cs) =
     (case gt_loop_set_cb l (cb_name c) (cb_syscall_cb c) (cb_sysret_cb c) (cb_user_data c) of
        (ok, l') \<Rightarrow> ok # gt_loop_set_cb_results l' cs)"

text \<open>The eight bytes of the 64-bit word at physical address \<open>pa\<close> can all be accessed
  (\<^verbatim>\<open>vmi_read_64_pa\<close> and \<^verbatim>\<open>vmi_write_64_pa\<close> succeed there).\<close>

definition accessible_64 :: "vmi_world \<Rightarrow> addr_t \<Rightarrow> bool" where
  "accessible_64 w pa = (length (read_bytes (phys w) pa 8) = 8)"

text \<open>
  The byte addresses of the 64-bit word at \<open>pa\<close>, and two such words that share no byte.
\<close>

definition slot_bytes :: "addr_t \<Rightarrow> addr_t list" where
  "slot_bytes pa = map (\<lambda>i. pa + of_nat i) [0..<8]"

definition slots_apart :: "addr_t \<Rightarrow> addr_t \<Rightarrow> bool" where
  "slots_apart a b = (\<forall>x \<in> set (slot_bytes a). x \<notin> set (slot_bytes b))"

text \<open>
  The bytes that destroying a page record touches: \<^verbatim>\<open>gt_remove_breakpoint\<close> rewrites
  the breakpoint byte of every child in the shadow frame, and
  \<^verbatim>\<open>xc_domain_decrease_reservation_exact\<close> releases the shadow frame. An address is
  outside the shadow frames of the loop when it is none of these bytes for any page record
  in the collection.
\<close>

definition outside_page_record :: "GTLoop \<Rightarrow> nat \<Rightarrow> addr_t \<Rightarrow> bool" where
  "outside_page_record l page_record a =
     (frame_of a \<noteq> shadow_frame (page_store l page_record) \<and>
      (\<forall>(off, paddr_record) \<in> set (children (page_store l page_record)).
         a \<noteq> frame_base (shadow_frame (page_store l (parent (paddr_store l paddr_record))))
               + offset (paddr_store l paddr_record)))"

definition outside_shadow_frames :: "GTLoop \<Rightarrow> addr_t \<Rightarrow> bool" where
  "outside_shadow_frames l a =
     (\<forall>(shadow, page_record) \<in> set (gt_page_record_collection l).
        outside_page_record l page_record a)"

section \<open>Comparing the two variants\<close>

text \<open>
  A loop of \<^verbatim>\<open>trace-syscalls.c\<close> and a state of \<^verbatim>\<open>trace_syscalls.c\<close> trace the
  same guest in the same way: the guest's memory, address translation and instruction
  pointers are the same, the trampoline and the canonical return address are the same,
  every physical address carries the same breakpoint record in both (a record of one
  variant corresponds to the record of the other in the cell of the same number), every
  thread that is inside a traced call is filed under the same breakpoint record in both
  trackers, and every call state of the loop is filed under its own \<open>thread_id\<close> (as
  \<^verbatim>\<open>gt_breakpoint_cb\<close> files it).
\<close>

definition variants_agree :: "GTLoop \<Rightarrow> vf_state \<Rightarrow> bool" where
  "variants_agree l s =
     (phys (vmi l) = phys (vf_vmi s) \<and>
      translate_kv2p (vmi l) = translate_kv2p (vf_vmi s) \<and>
      vcpu_rip (vmi l) = vcpu_rip (vf_vmi s) \<and>
      trampoline_addr l = vf_trampoline_addr s \<and>
      return_addr l = return_point_addr s \<and>
      (\<forall>pa. gt_paddr_record_from_pa l pa = vf_paddr_record_from_pa s pa) \<and>
      (\<forall>tid. map_option syscall_paddr_record (map_of (gt_ret_addr_mapping l) tid) =
              vf_ret_addr_mapping s tid) \<and>
      (\<forall>(key, st) \<in> set (gt_ret_addr_mapping l). thread_id st = key))"

section \<open>Example states\<close>

text \<open>A small guest: kernel addresses translate to themselves, every byte of memory is
  accessible, every hypercall is accepted. The system-call entry point is \<open>0x2000\<close>;
  the first \<^verbatim>\<open>int 3\<close> byte after it is at \<open>0x2003\<close>.\<close>

definition example_world :: vmi_world where
  "example_world =
     \<lparr>translate_kv2p = (\<lambda>va. va),
      translate_ksym2v = (\<lambda>name. if name = ''sys_open'' then 0x1200100 else 0),
      dtb_to_pid = (\<lambda>dtb. 42),
      msr_lstar = Some 0x2000,
      phys = (\<lambda>a. Some (if a = 0x2003 \<or> a = 0x2010 then 0xCC else 0x90)),
      vcpu_rip = (\<lambda>vcpu. 0),
      altp2m = (\<lambda>k. None),
      mem_event = (\<lambda>k. VMI_MEMACCESS_N),
      xc_accepts = (\<lambda>c. True),
      fresh_gfns = [0x5000, 0x5001],
      maxmem = 0x40000000,
      current_view = 1,
      paused = False,
      syscall_cb_result = (\<lambda>cb pid tid d. d + 1),
      effects = []\<rparr>"

text \<open>
  A loop that traces one system call: its handler is at \<open>0x1200100\<close>, frame
  \<open>0x1200\<close> is shadowed by frame \<open>0x5000\<close>, the breakpoint record is cell 2 and its
  page record cell 1. The canonical return address is \<open>0x3000\<close>; the stack word at
  \<open>0x7000\<close> holds it, the one at \<open>0x7100\<close> does not.
\<close>

definition example_loop :: GTLoop where
  "example_loop =
     \<lparr>vmi = example_world\<lparr>phys := (\<lambda>a. Some (if a = 0x2003 then 0xCC
                                              else if a = 0x7001 then 0x30
                                              else if 0x7000 \<le> a \<and> a < 0x7008 then 0
                                              else 0x90))\<rparr>,
      shadow_view = 1,
      init_mem_size = 0x40000000,
      curr_mem_size = 0x40001000,
      return_addr = 0x3000,
      trampoline_addr = 0x2003,
      return_addr_width = 8,
      gt_page_translation = [0x1200 \<mapsto> 0x5000],
      gt_page_record_collection = [(0x5000, 1)],
      gt_ret_addr_mapping = [],
      page_store = (\<lambda>p. \<lparr>frame = 0x1200, shadow_frame = 0x5000, children = [(0x100, 2)]\<rparr>),
      paddr_store = (\<lambda>p. \<lparr>offset = 0x100, syscall_cb = 7, sysret_cb = 8, parent = 1,
                           data = 0x99\<rparr>),
      next_ptr = 3,
      gt_interrupted = False\<rparr>"

definition example_event :: vmi_event where
  "example_event = \<lparr>gla = 0x1200100, reinject = 1, slat_id = 1, rsp = 0x7000, cr3 = 0x8000,
                     vcpu_id = 0\<rparr>"

text \<open>The same loop while the thread whose stack pointer was \<open>0x7000\<close> is inside the
  traced call, and the trap of its return.\<close>

definition example_state :: gt_syscall_state where
  "example_state = \<lparr>syscall_paddr_record = 2, state_data = 0x55, thread_id = 0x7000\<rparr>"

definition example_loop_in_call :: GTLoop where
  "example_loop_in_call = example_loop\<lparr>gt_ret_addr_mapping := [(0x7000, example_state)]\<rparr>"

definition example_return_event :: vmi_event where
  "example_return_event = \<lparr>gla = 0x2003, reinject = 1, slat_id = 1, rsp = 0x7008, cr3 = 0x8000,
                            vcpu_id = 0\<rparr>"

text \<open>A batch of two registrations: the first names a symbol the guest does not have
  (\<open>translate_ksym2v\<close> gives 0), the second the traced system call.\<close>

definition example_callbacks :: "GTSyscallCallback list" where
  "example_callbacks =
     [\<lparr>cb_name = ''sys_nosuch'', cb_syscall_cb = 7, cb_sysret_cb = 8, cb_user_data = 0\<rparr>,
      \<lparr>cb_name = ''sys_open'', cb_syscall_cb = 7, cb_sysret_cb = 8, cb_user_data = 0\<rparr>]"

text \<open>The tracing loop with the hypervisor state an install leaves: in the shadow view
  (view 1) frame \<open>0x1200\<close> is remapped to the shadow frame \<open>0x5000\<close> and accesses to
  frame \<open>0x1200\<close> trap.\<close>

definition example_installed_loop :: GTLoop where
  "example_installed_loop =
     example_loop\<lparr>vmi := (vmi example_loop)
       \<lparr>altp2m := (\<lambda>k. if k = (1, 0x1200) then Some 0x5000 else None),
        mem_event := (\<lambda>k. if k = (1, 0x1200) then VMI_MEMACCESS_RW else VMI_MEMACCESS_N)\<rparr>\<rparr>"

text \<open>The state of the identifier-based variant that traces the same system call of the
  same guest as \<open>example_loop\<close>.\<close>

definition example_vf_state :: vf_state where
  "example_vf_state =
     \<lparr>vf_vmi = vmi example_loop,
      vf_shadow_view = 1,
      return_point_addr = 0x3000,
      vf_trampoline_addr = 0x2003,
      vf_page_translation = [0x1200 \<mapsto> 0x5000],
      vf_page_record_collection = [(0x5000, 1)],
      vf_ret_addr_mapping = Map.empty,
      vf_page_store = (\<lambda>p. \<lparr>vf_frame = 0x1200, shadow_page = 0x5000,
                               vf_children = [(0x100, 2)]\<rparr>)\<rparr>"

text \<open>The tracing loop in a guest where libvmi cannot write the byte at offset
  \<open>0x200\<close> of the shadow frame (physical address \<open>0x5000200\<close>), and where the symbol
  \<open>sys_close\<close> resolves to \<open>0x1200200\<close>.\<close>

definition example_unwritable_loop :: GTLoop where
  "example_unwritable_loop =
     example_loop\<lparr>vmi := (vmi example_loop)
       \<lparr>translate_ksym2v := (\<lambda>name. if name = ''sys_close'' then 0x1200200 else 0),
        phys := (\<lambda>a. if a = 0x5000200 then None else Some 0x90)\<rparr>\<rparr>"

definition example_close_callback :: GTSyscallCallback where
  "example_close_callback =
     \<lparr>cb_name = ''sys_close'', cb_syscall_cb = 7, cb_sysret_cb = 8, cb_user_data = 0\<rparr>"

text \<open>The loop at the moment it quits while two threads are inside the traced call: the
  return slots at \<open>0x7000\<close> and \<open>0x7100\<close> hold the trampoline address \<open>0x2003\<close>.\<close>

definition example_quit_loop :: GTLoop where
  "example_quit_loop =
     example_loop
       \<lparr>vmi := (vmi example_loop)
          \<lparr>phys := (\<lambda>a. Some (if a = 0x7000 \<or> a = 0x7100 then 0x03
                              else if a = 0x7001 \<or> a = 0x7101 then 0x20
                              else if (0x7000 \<le> a \<and> a < 0x7008) \<or> (0x7100 \<le> a \<and> a < 0x7108)
                                   then 0
                              else 0x90))\<rparr>,
        gt_ret_addr_mapping :=
          [(0x7000, example_state),
           (0x7100, \<lparr>syscall_paddr_record = 2, state_data = 0x56, thread_id = 0x7100\<rparr>)]\<rparr>"

text \<open>The state of the identifier-based variant that traces the guest of a loop \<open>l\<close>
  with the breakpoint table of the example, and has the threads of \<open>l\<close> in its tracker,
  each under the breakpoint record \<open>l\<close> has it under.\<close>

definition example_vf_of :: "GTLoop \<Rightarrow> vf_state" where
  "example_vf_of l =
     example_vf_state
       \<lparr>vf_vmi := vmi l,
        vf_ret_addr_mapping :=
          (\<lambda>tid. map_option syscall_paddr_record (map_of (gt_ret_addr_mapping l) tid))\<rparr>"

text \<open>A guest whose addresses are 4 bytes wide (\<^verbatim>\<open>vmi_get_address_width\<close> gives 4), with
  the thread of \<open>0x7000\<close> inside the traced call; and the trap of its return, the stack
  pointer 4 bytes above the return slot.\<close>

definition example_narrow_loop :: GTLoop where
  "example_narrow_loop = example_loop_in_call\<lparr>return_addr_width := 4\<rparr>"

definition example_narrow_return_event :: vmi_event where
  "example_narrow_return_event = example_return_event\<lparr>rsp := 0x7004\<rparr>"

text \<open>A guest in which the stack address \<open>0x7000\<close> does not translate
  (\<^verbatim>\<open>vmi_translate_kv2p\<close> gives 0): with the thread of \<open>0x7000\<close> inside the traced call,
  and with no thread inside it but the canonical return address in the word at physical
  address 0.\<close>

definition example_unmapped_loop :: GTLoop where
  "example_unmapped_loop =
     example_loop_in_call
       \<lparr>vmi := (vmi example_loop)
          \<lparr>translate_kv2p := (\<lambda>va. if va = 0x7000 then 0 else va)\<rparr>\<rparr>"

definition example_unmapped_call_loop :: GTLoop where
  "example_unmapped_call_loop =
     example_loop
       \<lparr>vmi := (vmi example_loop)
          \<lparr>translate_kv2p := (\<lambda>va. if va = 0x7000 then 0 else va),
           phys := (\<lambda>a. if a = 1 then Some 0x30 else if a < 8 then Some 0
                         else phys (vmi example_loop) a)\<rparr>\<rparr>"

text \<open>A guest in which the first byte of the return slot at \<open>0x7000\<close> cannot be
  accessed.\<close>

definition example_unreadable_loop :: GTLoop where
  "example_unreadable_loop =
     example_loop
       \<lparr>vmi := (vmi example_loop)
          \<lparr>phys := (\<lambda>a. if a = 0x7000 then None else phys (vmi example_loop) a)\<rparr>\<rparr>"

section \<open>Memory lemmas\<close>

lemma read_bytes_full:
  "(length (read_bytes m a n) = n) = (\<forall>i<n. m (a + of_nat i) \<noteq> None)"
proof (induction n arbitrary: a)
  case 0
  then show ?case by simp
next
  case (Suc n)
  show ?case
  proof (cases "m a")
    case None
    then show ?thesis by (auto intro: exI[of _ 0])
  next
    case (Some b)
    have "(\<forall>i<Suc n. m (a + of_nat i) \<noteq> None) = (\<forall>i<n. m (a + 1 + of_nat i) \<noteq> None)"
      using Some by (auto simp: All_less_Suc2 add.assoc)
    then show ?thesis using Some Suc.IH[of "a + 1"] by simp
  qed
qed

lemma read_bytes_nth:
  "length (read_bytes m a n) = n \<Longrightarrow> i < n \<Longrightarrow> m (a + of_nat i) = Some (read_bytes m a n ! i)"
proof (induction n arbitrary: a i)
  case 0
  then show ?case by simp
next
  case (Suc n)
  show ?case
  proof (cases i)
    case 0
    then show ?thesis using Suc.prems by (auto split: option.splits)
  next
    case (Suc k)
    then show ?thesis
      using Suc.prems Suc.IH[of "a + 1" k] by (auto split: option.splits simp: add.assoc)
  qed
qed

lemma gt_find_int3_least:
  "gt_find_int3 code lstar i =
     (if \<exists>j. i \<le> j \<and> j < GT_PAGE_SIZE \<and> code ! j = GT_BREAKPOINT_INST
      then lstar + of_nat (LEAST j. i \<le> j \<and> code ! j = GT_BREAKPOINT_INST)
      else 0)"
proof (induction code lstar i rule: gt_find_int3.induct)
  case (1 code lstar i)
  show ?case
  proof (cases "i < GT_PAGE_SIZE")
    case False
    then show ?thesis by (subst gt_find_int3.simps) auto
  next
    case inpage: True
    show ?thesis
    proof (cases "code ! i = GT_BREAKPOINT_INST")
      case True
      have "(LEAST j. i \<le> j \<and> code ! j = GT_BREAKPOINT_INST) = i"
        by (rule Least_equality) (use True in auto)
      then show ?thesis using True inpage by (subst gt_find_int3.simps) auto
    next
      case False
      have eq: "(i \<le> j \<and> code ! j = GT_BREAKPOINT_INST) = (i + 1 \<le> j \<and> code ! j = GT_BREAKPOINT_INST)" for j
        using False by (cases "i = j") auto
      have ex: "(\<exists>j. i \<le> j \<and> j < GT_PAGE_SIZE \<and> code ! j = GT_BREAKPOINT_INST) =
                (\<exists>j. i + 1 \<le> j \<and> j < GT_PAGE_SIZE \<and> code ! j = GT_BREAKPOINT_INST)"
        using eq by blast
      have "gt_find_int3 code lstar i = gt_find_int3 code lstar (i + 1)"
        using inpage False by (subst gt_find_int3.simps) simp
      then show ?thesis
        unfolding ex using "1.IH"[OF inpage False] by (simp only: eq)
    qed
  qed
qed

lemma Least_cong_below:
  fixes P Q :: "nat \<Rightarrow> bool"
  assumes agree: "\<And>j. j < n \<Longrightarrow> P j = Q j" and ex: "\<exists>j<n. P j"
  shows "(LEAST j. P j) = (LEAST j. Q j)"
proof -
  from ex obtain j where j: "j < n" "P j" by blast
  define k where "k = (LEAST j. P j)"
  have Pk: "P k" unfolding k_def using j(2) by (rule LeastI)
  have kle: "k \<le> j" unfolding k_def using j(2) by (rule Least_le)
  have kn: "k < n" using kle j(1) by simp
  have "(LEAST j. Q j) = k"
  proof (rule Least_equality)
    show "Q k" using Pk agree[OF kn] by simp
  next
    fix y assume Qy: "Q y"
    show "k \<le> y"
    proof (rule ccontr)
      assume "\<not> k \<le> y"
      then have yk: "y < k" by simp
      then have "P y" using Qy agree[of y] kn by simp
      then have "k \<le> y" unfolding k_def by (rule Least_le)
      then show False using yk by simp
    qed
  qed
  then show ?thesis by (simp add: k_def)
qed

section \<open>The trampoline locator finds the first breakpoint byte\<close>

text \<open>
  C7. When the MSR can be read, the entry point translates and the
  \<open>GT_PAGE_SIZE\<close> bytes that start at its physical address can be read, the locator
  returns the entry point plus the least offset below \<open>GT_PAGE_SIZE\<close> at which these
  bytes hold \<open>0xCC\<close>, and 0 when none of them does: the result is a function of exactly
  these \<open>GT_PAGE_SIZE\<close> bytes.
\<close>

theorem gt_find_trampoline_addr_first_int3:
  assumes lstar: "msr_lstar w = Some lstar"
    and transl: "translate_kv2p w lstar \<noteq> 0"
    and readable: "\<forall>i<GT_PAGE_SIZE. phys w (translate_kv2p w lstar + of_nat i) \<noteq> None"
  shows "gt_find_trampoline_addr w =
           (if \<exists>i<GT_PAGE_SIZE. phys w (translate_kv2p w lstar + of_nat i) = Some GT_BREAKPOINT_INST
            then lstar + of_nat (LEAST i. phys w (translate_kv2p w lstar + of_nat i)
                                           = Some GT_BREAKPOINT_INST)
            else 0)"
proof -
  define code where "code = vmi_read_pa w (translate_kv2p w lstar) GT_PAGE_SIZE"
  have len: "length code = GT_PAGE_SIZE"
    unfolding code_def vmi_read_pa_def using readable by (simp add: read_bytes_full)
  have nth: "phys w (translate_kv2p w lstar + of_nat j) = Some (code ! j)" if "j < GT_PAGE_SIZE" for j
    using len that unfolding code_def vmi_read_pa_def by (rule read_bytes_nth)
  have agree: "(code ! j = GT_BREAKPOINT_INST) =
               (phys w (translate_kv2p w lstar + of_nat j) = Some GT_BREAKPOINT_INST)"
    if "j < GT_PAGE_SIZE" for j
    using nth[OF that] by simp
  have run: "gt_find_trampoline_addr w = gt_find_int3 code lstar 0"
    using lstar transl len by (simp add: gt_find_trampoline_addr_def Let_def code_def)
  show ?thesis
  proof (cases "\<exists>j<GT_PAGE_SIZE. code ! j = GT_BREAKPOINT_INST")
    case True
    then have ex: "\<exists>i<GT_PAGE_SIZE. phys w (translate_kv2p w lstar + of_nat i) = Some GT_BREAKPOINT_INST"
      using agree by blast
    have "(LEAST j. code ! j = GT_BREAKPOINT_INST) =
          (LEAST i. phys w (translate_kv2p w lstar + of_nat i) = Some GT_BREAKPOINT_INST)"
      by (rule Least_cong_below[where n = GT_PAGE_SIZE]) (use agree True in auto)
    then show ?thesis
      using True ex by (auto simp: run gt_find_int3_least)
  next
    case False
    then have "\<not> (\<exists>i<GT_PAGE_SIZE. phys w (translate_kv2p w lstar + of_nat i) = Some GT_BREAKPOINT_INST)"
      using agree by blast
    then show ?thesis using False by (auto simp: run gt_find_int3_least)
  qed
qed

text \<open>In the example guest the locator returns \<open>0x2003\<close>, not the later \<open>0x2010\<close>.\<close>

theorem gt_find_trampoline_addr_first_int3_witness:
  "msr_lstar example_world = Some 0x2000 \<and>
   translate_kv2p example_world 0x2000 \<noteq> 0 \<and>
   length (vmi_read_pa example_world (translate_kv2p example_world 0x2000) GT_PAGE_SIZE)
     = GT_PAGE_SIZE \<and>
   gt_find_trampoline_addr example_world = 0x2003"
proof -
  have a: "msr_lstar example_world = Some 0x2000" by (simp add: example_world_def)
  have b: "translate_kv2p example_world 0x2000 \<noteq> 0" by (simp add: example_world_def)
  have c: "\<forall>i<GT_PAGE_SIZE. phys example_world (translate_kv2p example_world 0x2000 + of_nat i) \<noteq> None"
    by (simp add: example_world_def)
  have at3: "phys example_world (translate_kv2p example_world 0x2000 + of_nat 3) = Some GT_BREAKPOINT_INST"
    by (simp add: example_world_def GT_BREAKPOINT_INST_def)
  have ex: "\<exists>i<GT_PAGE_SIZE. phys example_world (translate_kv2p example_world 0x2000 + of_nat i)
               = Some GT_BREAKPOINT_INST"
    by (rule exI[of _ 3]) (simp add: at3 GT_PAGE_SIZE_def GT_PAGE_OFFSET_BITS_def del: of_nat_numeral)
  have least: "(LEAST i. phys example_world (translate_kv2p example_world 0x2000 + of_nat i)
                 = Some GT_BREAKPOINT_INST) = 3"
  proof (rule Least_equality)
    show "phys example_world (translate_kv2p example_world 0x2000 + of_nat 3) = Some GT_BREAKPOINT_INST"
      by (rule at3)
  next
    fix y
    assume y: "phys example_world (translate_kv2p example_world 0x2000 + of_nat y) = Some GT_BREAKPOINT_INST"
    show "3 \<le> y"
    proof (rule ccontr)
      assume "\<not> 3 \<le> y"
      then have "y = 0 \<or> y = 1 \<or> y = 2" by arith
      then show False using y by (auto simp: example_world_def GT_BREAKPOINT_INST_def)
    qed
  qed
  have d: "length (vmi_read_pa example_world (translate_kv2p example_world 0x2000) GT_PAGE_SIZE)
             = GT_PAGE_SIZE"
    using c by (simp add: vmi_read_pa_def read_bytes_full)
  show ?thesis
    using gt_find_trampoline_addr_first_int3[OF a b c] ex a b d by (simp add: least)
qed

section \<open>The call-site path of the dispatcher\<close>

lemma example_from_va:
  "gt_paddr_record_from_va example_loop va =
     (if frame_of va = 0x1200 \<and> offset_of va = 0x100 then Some 2 else None)"
  by (simp add: gt_paddr_record_from_va_def gt_paddr_record_from_pa_def example_loop_def
      example_world_def lookup_shadow_def Let_def)

lemma frame_offset_examples:
  "frame_of 0x1200100 = 0x1200" "offset_of 0x1200100 = 0x100"
  "frame_of 0x1300100 = 0x1300"
  by (simp_all add: frame_of_def offset_of_def GT_PAGE_OFFSET_BITS_def GT_PAGE_SIZE_def drop_bit_eq_div)

lemma read_64_example_7100:
  "vmi_read_64_pa (vmi example_loop) 0x7100 = Some 0x9090909090909090"
  by code_simp

lemma read_64_example_7000:
  "vmi_read_64_pa (vmi example_loop) 0x7000 = Some 0x3000"
  by code_simp

text \<open>
  C6. A breakpoint at an address other than the trampoline for which the table holds no
  record: the dispatcher answers \<open>VMI_EVENT_RESPONSE_NONE\<close> with the re-inject flag
  set, and the loop (tables, tracker, guest memory, recorded effects) is unchanged.
\<close>

theorem gt_breakpoint_cb_stale_trap:
  assumes "gla event \<noteq> trampoline_addr l"
    and "gt_paddr_record_from_va l (gla event) = None"
  shows "gt_breakpoint_cb l event = (VMI_EVENT_RESPONSE_NONE, event\<lparr>reinject := 1\<rparr>, l)"
  using assms by (simp add: gt_breakpoint_cb_def Let_def)

theorem gt_breakpoint_cb_stale_trap_witness:
  "gla (example_event\<lparr>gla := 0x1300100\<rparr>) \<noteq> trampoline_addr example_loop \<and>
   gt_paddr_record_from_va example_loop (gla (example_event\<lparr>gla := 0x1300100\<rparr>)) = None \<and>
   gt_breakpoint_cb example_loop (example_event\<lparr>gla := 0x1300100\<rparr>) =
     (VMI_EVENT_RESPONSE_NONE, example_event\<lparr>gla := 0x1300100, reinject := 1\<rparr>, example_loop)"
proof -
  have a: "gla (example_event\<lparr>gla := 0x1300100\<rparr>) \<noteq> trampoline_addr example_loop"
    by (simp add: example_loop_def)
  have b: "gt_paddr_record_from_va example_loop (gla (example_event\<lparr>gla := 0x1300100\<rparr>)) = None"
    by (simp add: example_from_va frame_offset_examples)
  show ?thesis using gt_breakpoint_cb_stale_trap[OF a b] a b by simp
qed

text \<open>
  C3. A breakpoint of the tracer's own (the table holds a record for the faulting
  address) whose return slot cannot be translated, cannot be read, or does not hold the
  canonical return address: the loop is unchanged, so no call state is recorded, the
  stack word is not rewritten and no callback runs; the response still asks for the
  switch to view 0 (\<open>slat_id = 0\<close> with \<open>VMI_EVENT_RESPONSE_VMM_PAGETABLE_ID\<close>) and
  toggles single-stepping.
\<close>

theorem gt_breakpoint_cb_unexpected_stack:
  assumes "gla event \<noteq> trampoline_addr l"
    and "gt_paddr_record_from_va l (gla event) = Some record"
    and "translate_kv2p (vmi l) (rsp event) = 0 \<or>
         vmi_read_64_pa (vmi l) (translate_kv2p (vmi l) (rsp event)) \<noteq> Some (return_addr l)"
  shows "gt_breakpoint_cb l event =
           ({VMI_EVENT_RESPONSE_TOGGLE_SINGLESTEP, VMI_EVENT_RESPONSE_VMM_PAGETABLE_ID},
            event\<lparr>reinject := 0, slat_id := 0\<rparr>, l)"
  using assms by (auto simp: gt_breakpoint_cb_def Let_def split: option.splits)

theorem gt_breakpoint_cb_unexpected_stack_witness:
  "gla (example_event\<lparr>rsp := 0x7100\<rparr>) \<noteq> trampoline_addr example_loop \<and>
   gt_paddr_record_from_va example_loop (gla (example_event\<lparr>rsp := 0x7100\<rparr>)) = Some 2 \<and>
   vmi_read_64_pa (vmi example_loop)
     (translate_kv2p (vmi example_loop) (rsp (example_event\<lparr>rsp := 0x7100\<rparr>)))
       = Some 0x9090909090909090 \<and>
   return_addr example_loop = 0x3000 \<and>
   gt_breakpoint_cb example_loop (example_event\<lparr>rsp := 0x7100\<rparr>) =
     ({VMI_EVENT_RESPONSE_TOGGLE_SINGLESTEP, VMI_EVENT_RESPONSE_VMM_PAGETABLE_ID},
      example_event\<lparr>rsp := 0x7100, reinject := 0, slat_id := 0\<rparr>, example_loop)"
proof -
  let ?ev = "example_event\<lparr>rsp := 0x7100\<rparr>"
  have a: "gla ?ev \<noteq> trampoline_addr example_loop"
    by (simp add: example_loop_def example_event_def)
  have b: "gt_paddr_record_from_va example_loop (gla ?ev) = Some 2"
    by (simp add: example_from_va frame_offset_examples example_event_def)
  have kv: "translate_kv2p (vmi example_loop) 0x7100 = 0x7100"
    by (simp add: example_loop_def example_world_def)
  have r: "return_addr example_loop = 0x3000" by (simp add: example_loop_def)
  have c: "translate_kv2p (vmi example_loop) (rsp ?ev) = 0 \<or>
           vmi_read_64_pa (vmi example_loop) (translate_kv2p (vmi example_loop) (rsp ?ev))
             \<noteq> Some (return_addr example_loop)"
    by (simp add: kv read_64_example_7100 r example_event_def)
  show ?thesis
    using gt_breakpoint_cb_unexpected_stack[OF a b c] a b r
    by (simp add: kv read_64_example_7100 example_event_def)
qed


section \<open>The return-site path of the dispatcher\<close>

lemma callbacks_of_simps:
  "callbacks_of [] = []"
  "callbacks_of (Syscall_cb cb pid tid d # es) = Syscall_cb cb pid tid d # callbacks_of es"
  "callbacks_of (Sysret_cb cb pid tid d # es) = Sysret_cb cb pid tid d # callbacks_of es"
  "callbacks_of (Print_syscall r # es) = Print_syscall r # callbacks_of es"
  "callbacks_of (Print_sysret r # es) = Print_sysret r # callbacks_of es"
  "callbacks_of (Write_64 pa v # es) = callbacks_of es"
  by (simp_all add: callbacks_of_def)

lemma effects_restore:
  "callbacks_of (effects (vmi (gt_restore_return_addr l st))) = callbacks_of (effects (vmi l))"
  by (simp add: gt_restore_return_addr_def vmi_write_64_pa_def callbacks_of_simps Let_def
      split: prod.splits)

lemma restore_fields:
  "gt_ret_addr_mapping (gt_restore_return_addr l st) = gt_ret_addr_mapping l"
  "vcpu_rip (vmi (gt_restore_return_addr l st)) = vcpu_rip (vmi l)"
  "return_addr (gt_restore_return_addr l st) = return_addr l"
  "trampoline_addr (gt_restore_return_addr l st) = trampoline_addr l"
  "translate_kv2p (vmi (gt_restore_return_addr l st)) = translate_kv2p (vmi l)"
  "paddr_store (gt_restore_return_addr l st) = paddr_store l"
  "page_store (gt_restore_return_addr l st) = page_store l"
  "gt_page_translation (gt_restore_return_addr l st) = gt_page_translation l"
  "gt_page_record_collection (gt_restore_return_addr l st) = gt_page_record_collection l"
  by (simp_all add: gt_restore_return_addr_def vmi_write_64_pa_def Let_def split: prod.splits)


text \<open>
  C4. A breakpoint at the trampoline address. The thread is looked up under the stack
  pointer minus \<open>return_addr_width\<close>. Without an entry the dispatcher only clears the
  re-inject flag: the loop is unchanged. With an entry, exactly one callback runs, the
  return callback of the entry's breakpoint record, with the payload kept in the entry;
  the instruction pointer of the trapping VCPU becomes the canonical return address; the
  entry is removed and the other entries stay. (Removing the entry runs its destroy
  notifier, which may write the return address to the thread's return slot: only the
  callbacks among the effects are compared.)
\<close>

theorem gt_breakpoint_cb_return_site:
  assumes "gla event = trampoline_addr l"
  shows "case map_of (gt_ret_addr_mapping l) (rsp event - return_addr_width l) of
           None \<Rightarrow> gt_breakpoint_cb l event = (VMI_EVENT_RESPONSE_NONE, event\<lparr>reinject := 0\<rparr>, l)
         | Some state \<Rightarrow>
             (\<exists>l'. gt_breakpoint_cb l event = (VMI_EVENT_RESPONSE_NONE, event\<lparr>reinject := 0\<rparr>, l') \<and>
                callbacks_of (effects (vmi l')) =
                  Sysret_cb (sysret_cb (paddr_store l (syscall_paddr_record state)))
                    (dtb_to_pid (vmi l) (cr3 event))
                    (rsp event - return_addr_width l) (state_data state)
                  # callbacks_of (effects (vmi l)) \<and>
                vcpu_rip (vmi l') = (vcpu_rip (vmi l))(vcpu_id event := return_addr l) \<and>
                map_of (gt_ret_addr_mapping l') =
                  (map_of (gt_ret_addr_mapping l))(rsp event - return_addr_width l := None))"
  using assms
  by (auto simp: gt_breakpoint_cb_def Let_def gt_ret_addr_mapping_remove_def effects_restore
      restore_fields call_sysret_cb_def vmi_set_vcpureg_rip_def callbacks_of_simps delete_conv'
      split: option.splits)

theorem gt_breakpoint_cb_return_site_witness:
  "gla example_return_event = trampoline_addr example_loop_in_call \<and>
   map_of (gt_ret_addr_mapping example_loop_in_call)
     (rsp example_return_event - return_addr_width example_loop_in_call) = Some example_state \<and>
   callbacks_of (effects (vmi (snd (snd (gt_breakpoint_cb example_loop_in_call example_return_event)))))
     = [Sysret_cb 8 42 0x7000 0x55] \<and>
   vcpu_rip (vmi (snd (snd (gt_breakpoint_cb example_loop_in_call example_return_event)))) 0
     = 0x3000 \<and>
   map_of (gt_ret_addr_mapping (snd (snd (gt_breakpoint_cb example_loop_in_call example_return_event))))
     0x7000 = None"
proof -
  have a: "gla example_return_event = trampoline_addr example_loop_in_call"
    by (simp add: example_return_event_def example_loop_in_call_def example_loop_def)
  have tid: "rsp example_return_event - return_addr_width example_loop_in_call = 0x7000"
    by (simp add: example_return_event_def example_loop_in_call_def example_loop_def)
  have b: "map_of (gt_ret_addr_mapping example_loop_in_call) 0x7000 = Some example_state"
    by (simp add: example_loop_in_call_def)
  have vals: "sysret_cb (paddr_store example_loop_in_call (syscall_paddr_record example_state)) = 8"
    "dtb_to_pid (vmi example_loop_in_call) (cr3 example_return_event) = 42"
    "state_data example_state = 0x55"
    "effects (vmi example_loop_in_call) = []"
    "return_addr example_loop_in_call = 0x3000"
    "vcpu_id example_return_event = 0"
    by (simp_all add: example_loop_in_call_def example_loop_def example_world_def
        example_state_def example_return_event_def)
  show ?thesis
    using gt_breakpoint_cb_return_site[OF a] a b
    by (auto simp: tid vals callbacks_of_simps)
qed

section \<open>Installing at an address that is trapped already\<close>

lemma gt_setup_mem_trap_registered:
  assumes reg: "gt_paddr_record_from_va l va = Some r"
    and pa: "translate_kv2p (vmi l) va \<noteq> 0"
  shows "gt_setup_mem_trap l va scb rcb d = (Some r, l)"
proof -
  define pa where "pa = translate_kv2p (vmi l) va"
  define shadow where "shadow = lookup_shadow l (frame_of pa)"
  from reg have sh: "shadow \<noteq> 0"
    by (auto simp: gt_paddr_record_from_va_def gt_paddr_record_from_pa_def Let_def pa_def
        shadow_def split: if_splits)
  from reg sh obtain page where
    page: "map_of (gt_page_record_collection l) shadow = Some page"
    and child: "map_of (children (page_store l page)) (offset_of pa) = Some r"
    by (auto simp: gt_paddr_record_from_va_def gt_paddr_record_from_pa_def Let_def pa_def
        shadow_def split: if_splits option.splits)
  have s1: "gt_setup_shadow l (frame_of pa) = (Some shadow, l)"
    using sh by (simp add: gt_setup_shadow_def Let_def shadow_def)
  have s2: "gt_setup_page_record l (frame_of pa) shadow (offset_of pa) = (Inl (Some r), l)"
    using page child by (simp add: gt_setup_page_record_def)
  show ?thesis
    using pa s1 s2 by (simp add: gt_setup_mem_trap_def Let_def pa_def)
qed

lemma write_bytes_preserves:
  "write_bytes m a bs = (m', n) \<Longrightarrow> (m' x = None) = (m x = None)"
  by (induction bs arbitrary: m a m' n) (auto split: option.splits prod.splits if_splits)

lemma kv2p_alloc:
  "translate_kv2p (vmi (snd (gt_allocate_shadow_frame l))) = translate_kv2p (vmi l)"
  by (simp add: gt_allocate_shadow_frame_def Let_def xc_domain_setmaxmem_def
      xc_domain_increase_reservation_exact_def xc_domain_populate_physmap_exact_def
      split: prod.splits bool.splits option.splits list.splits if_splits)

lemma kv2p_setup_shadow:
  "translate_kv2p (vmi (snd (gt_setup_shadow l fr))) = translate_kv2p (vmi l)"
  using kv2p_alloc[of l]
  by (auto simp: gt_setup_shadow_def Let_def xc_altp2m_change_gfn_def
      split: prod.splits bool.splits option.splits if_splits)

lemma kv2p_setup_page_record:
  "translate_kv2p (vmi (snd (gt_setup_page_record l fr sh off))) = translate_kv2p (vmi l)"
  by (auto simp: gt_setup_page_record_def Let_def vmi_write_pa_def vmi_set_mem_event_def
      split: prod.splits option.splits if_splits)

lemma kv2p_setup_paddr_record:
  "translate_kv2p (vmi (snd (gt_setup_paddr_record l p sh off scb rcb d))) = translate_kv2p (vmi l)"
  by (auto simp: gt_setup_paddr_record_def Let_def vmi_write_8_pa_def
      split: prod.splits option.splits if_splits bool.splits)

lemma kv2p_setup_mem_trap:
  "translate_kv2p (vmi (snd (gt_setup_mem_trap l va scb rcb d))) = translate_kv2p (vmi l)"
proof -
  have a: "translate_kv2p (vmi l1) = translate_kv2p (vmi l)"
    if "gt_setup_shadow l fr = (x, l1)" for fr x l1
    using kv2p_setup_shadow[of l fr] that by simp
  have b: "translate_kv2p (vmi l2) = translate_kv2p (vmi l1)"
    if "gt_setup_page_record l1 fr sh off = (x, l2)" for l1 fr sh off x l2
    using kv2p_setup_page_record[of l1 fr sh off] that by simp
  show ?thesis
    by (auto simp: gt_setup_mem_trap_def Let_def kv2p_setup_paddr_record a b
        split: prod.splits option.splits sum.splits)
qed

lemma gt_setup_mem_trap_Some_translates:
  "gt_setup_mem_trap l va scb rcb d = (Some r, l1) \<Longrightarrow> translate_kv2p (vmi l) va \<noteq> 0"
  by (auto simp: gt_setup_mem_trap_def Let_def split: if_splits)

text \<open>
  Two successive installs at the same virtual address, whatever callbacks and
  payload each is given: when the first returns a record and has entered it in the
  table (the address is trapped), the second returns the same record and leaves the
  whole loop as the first left it. So the second install allocates no record
  (\<open>next_ptr\<close> and \<open>paddr_store\<close> are the same), adds no child, and asks the
  hypervisor for no frame (\<open>fresh_gfns\<close>, \<open>maxmem\<close> and \<open>curr_mem_size\<close> are the
  same): a shadow frame is allocated only by an install that finds no translation for
  the frame.
\<close>

theorem gt_setup_mem_trap_idempotent:
  assumes first: "gt_setup_mem_trap l va scb rcb d = (Some r, l1)"
    and registered: "gt_paddr_record_from_va l1 va = Some r"
  shows "gt_setup_mem_trap l1 va scb' rcb' d' = (Some r, l1)"
proof -
  have "translate_kv2p (vmi l1) va = translate_kv2p (vmi l) va"
    using kv2p_setup_mem_trap[of l va scb rcb d] first by simp
  then have "translate_kv2p (vmi l1) va \<noteq> 0"
    using gt_setup_mem_trap_Some_translates[OF first] by simp
  with registered show ?thesis by (rule gt_setup_mem_trap_registered)
qed

text \<open>In the example the first install in frame \<open>0x1200\<close> at offset \<open>0x200\<close> makes
  record 3; a second install with other callbacks returns record 3 and changes
  nothing.\<close>

lemma example_install_result:
  "fst (gt_setup_mem_trap example_loop 0x1200200 7 8 0) = Some 3"
  by code_simp

lemma example_install_registered:
  "gt_paddr_record_from_va (snd (gt_setup_mem_trap example_loop 0x1200200 7 8 0)) 0x1200200 = Some 3"
  by code_simp

theorem gt_setup_mem_trap_idempotent_witness:
  "fst (gt_setup_mem_trap example_loop 0x1200200 7 8 0) = Some 3 \<and>
   gt_paddr_record_from_va (snd (gt_setup_mem_trap example_loop 0x1200200 7 8 0)) 0x1200200
     = Some 3 \<and>
   gt_setup_mem_trap (snd (gt_setup_mem_trap example_loop 0x1200200 7 8 0)) 0x1200200 9 10 1
     = (Some 3, snd (gt_setup_mem_trap example_loop 0x1200200 7 8 0))"
proof -
  have first: "gt_setup_mem_trap example_loop 0x1200200 7 8 0 =
                 (Some 3, snd (gt_setup_mem_trap example_loop 0x1200200 7 8 0))"
    using example_install_result by (simp add: prod_eq_iff)
  show ?thesis
    using gt_setup_mem_trap_idempotent[OF first example_install_registered]
      example_install_result example_install_registered
    by simp
qed

subsection \<open>An install whose breakpoint byte cannot be written\<close>

text \<open>
  \<^verbatim>\<open>gt_setup_mem_trap\<close> assigns \<^verbatim>\<open>paddr_record\<close> before it writes the breakpoint
  byte. When \<^verbatim>\<open>vmi_write_8_pa\<close> fails it prints
  \<^verbatim>\<open>failed to write interrupt to shadow page\<close> and jumps to \<^verbatim>\<open>done\<close>, which returns
  \<^verbatim>\<open>paddr_record\<close>: the record that was just allocated and that is in no table. Every other
  failure of the function reaches \<^verbatim>\<open>done\<close> with \<^verbatim>\<open>paddr_record\<close> still \<^verbatim>\<open>NULL\<close>.
  So an install that returns a record has entered it in the table, or the breakpoint byte
  could not be written.
\<close>

lemma gt_setup_paddr_record_registers:
  assumes run: "gt_setup_paddr_record l p shadow off scb rcb d = (x, l')"
  shows "x = Some (next_ptr l) \<and>
         gt_page_translation l' = gt_page_translation l \<and>
         gt_page_record_collection l' = gt_page_record_collection l \<and>
         (phys (vmi l) (frame_base shadow + off) = None \<and> phys (vmi l') = phys (vmi l) \<or>
          map_of (children (page_store l' p)) off = Some (next_ptr l))"
  using run
  by (auto simp: gt_setup_paddr_record_def Let_def vmi_write_8_pa_def update_conv'
      split: option.splits)

lemma gt_setup_page_record_Inr:
  assumes run: "gt_setup_page_record l fr shadow off = (Inr p, l')"
  shows "map_of (gt_page_record_collection l') shadow = Some p \<and>
         gt_page_translation l' = gt_page_translation l"
  using run
  by (auto simp: gt_setup_page_record_def Let_def vmi_write_pa_def update_conv' split_beta
      split: option.splits if_splits)

lemma gt_setup_page_record_Inl:
  assumes run: "gt_setup_page_record l fr shadow off = (Inl (Some r), l')"
  shows "l' = l \<and> (\<exists>p. map_of (gt_page_record_collection l) shadow = Some p \<and>
                        map_of (children (page_store l p)) off = Some r)"
  using run
  by (auto simp: gt_setup_page_record_def Let_def vmi_write_pa_def split_beta
      split: option.splits if_splits)

lemma gt_setup_shadow_Some:
  assumes run: "gt_setup_shadow l fr = (Some shadow, l')"
  shows "shadow \<noteq> 0 \<and> lookup_shadow l' fr = shadow"
  using run
  by (auto simp: gt_setup_shadow_def Let_def lookup_shadow_def xc_altp2m_change_gfn_def
      split: option.splits if_splits prod.splits bool.splits)

lemma gt_setup_mem_trap_registers:
  assumes run: "gt_setup_mem_trap l va scb rcb d = (Some r, l')"
  shows "gt_paddr_record_from_va l' va = Some r \<or>
         phys (vmi l') (frame_base (lookup_shadow l' (frame_of (translate_kv2p (vmi l) va)))
                        + offset_of (translate_kv2p (vmi l) va)) = None"
proof -
  define pa where "pa = translate_kv2p (vmi l) va"
  have pa0: "pa \<noteq> 0"
    using gt_setup_mem_trap_Some_translates[OF run] by (simp add: pa_def)
  have kv: "translate_kv2p (vmi l') va = pa"
    using kv2p_setup_mem_trap[of l va scb rcb d] run by (simp add: pa_def)
  obtain x l1 where s1: "gt_setup_shadow l (frame_of pa) = (x, l1)"
    by (cases "gt_setup_shadow l (frame_of pa)")
  from run pa0 s1 obtain shadow where x: "x = Some shadow"
    by (cases x) (simp_all add: gt_setup_mem_trap_def Let_def pa_def)
  from gt_setup_shadow_Some[OF s1[unfolded x]]
  have sh: "shadow \<noteq> 0" "lookup_shadow l1 (frame_of pa) = shadow" by simp_all
  obtain y l2 where s2: "gt_setup_page_record l1 (frame_of pa) shadow (offset_of pa) = (y, l2)"
    by (cases "gt_setup_page_record l1 (frame_of pa) shadow (offset_of pa)")
  show ?thesis
  proof (cases y)
    case (Inl res)
    then have res: "res = Some r" "l' = l2"
      using run pa0 s1 x s2 by (simp_all add: gt_setup_mem_trap_def Let_def pa_def)
    from gt_setup_page_record_Inl[OF s2[unfolded Inl res(1)]] obtain p where
      "l2 = l1" "map_of (gt_page_record_collection l1) shadow = Some p"
      "map_of (children (page_store l1 p)) (offset_of pa) = Some r"
      by blast
    then have "gt_paddr_record_from_va l' va = Some r"
      using sh res(2) kv by (simp add: gt_paddr_record_from_va_def gt_paddr_record_from_pa_def)
    then show ?thesis ..
  next
    case (Inr p)
    then have s3: "gt_setup_paddr_record l2 p shadow (offset_of pa) scb rcb d = (Some r, l')"
      using run pa0 s1 x s2 by (simp add: gt_setup_mem_trap_def Let_def pa_def)
    from gt_setup_page_record_Inr[OF s2[unfolded Inr]]
    have c2: "map_of (gt_page_record_collection l2) shadow = Some p"
      and t2: "gt_page_translation l2 = gt_page_translation l1" by simp_all
    from gt_setup_paddr_record_registers[OF s3]
    have r: "r = next_ptr l2"
      and t3: "gt_page_translation l' = gt_page_translation l2"
      and c3: "gt_page_record_collection l' = gt_page_record_collection l2"
      and alt: "phys (vmi l2) (frame_base shadow + offset_of pa) = None \<and>
                phys (vmi l') = phys (vmi l2) \<or>
                map_of (children (page_store l' p)) (offset_of pa) = Some (next_ptr l2)"
      by auto
    have look: "lookup_shadow l' (frame_of pa) = shadow"
      using sh(2) by (simp add: lookup_shadow_def t3 t2)
    from alt show ?thesis
    proof
      assume "phys (vmi l2) (frame_base shadow + offset_of pa) = None \<and>
              phys (vmi l') = phys (vmi l2)"
      then show ?thesis using look by (simp add: pa_def)
    next
      assume "map_of (children (page_store l' p)) (offset_of pa) = Some (next_ptr l2)"
      then have "gt_paddr_record_from_va l' va = Some r"
        using sh(1) look kv c2
        by (simp add: gt_paddr_record_from_va_def gt_paddr_record_from_pa_def c3 r)
      then show ?thesis ..
    qed
  qed
qed

text \<open>
  C1. Two successive installs at the same virtual address are not always one install.
  In the example guest the byte at \<open>0x5000200\<close>, where the breakpoint of address
  \<open>0x1200200\<close> goes, cannot be written, and the address is not trapped. The first
  install allocates record 3 and returns it, without entering it among the children of
  the page record. The second install finds no record for the address, so it allocates
  another one, record 4, and returns that: two records have been created for the one
  address (the next free record is 5 where it was 3), the two calls return different
  records, and the table holds neither.
\<close>

theorem gt_setup_mem_trap_write_failure_duplicates:
  "phys (vmi example_unwritable_loop) 0x5000200 = None \<and>
   gt_paddr_record_from_va example_unwritable_loop 0x1200200 = None \<and>
   next_ptr example_unwritable_loop = 3 \<and>
   fst (gt_setup_mem_trap example_unwritable_loop 0x1200200 7 8 0) = Some 3 \<and>
   fst (gt_setup_mem_trap
          (snd (gt_setup_mem_trap example_unwritable_loop 0x1200200 7 8 0)) 0x1200200 7 8 0)
     = Some 4 \<and>
   next_ptr
     (snd (gt_setup_mem_trap
             (snd (gt_setup_mem_trap example_unwritable_loop 0x1200200 7 8 0)) 0x1200200 7 8 0))
     = 5 \<and>
   gt_paddr_record_from_va
     (snd (gt_setup_mem_trap
             (snd (gt_setup_mem_trap example_unwritable_loop 0x1200200 7 8 0)) 0x1200200 7 8 0))
     0x1200200 = None"
  by code_simp

text \<open>
  C10. An install at an address whose record is in the table returns without touching
  the loop: the record keeps its callbacks and payload (\<open>paddr_store\<close> is the same),
  the callbacks and payload of the call are dropped, and no byte of guest memory, the
  shadow byte included, is written (\<open>phys\<close> is the same). The call returns the record,
  or \<^verbatim>\<open>NULL\<close> when the address does not translate.
\<close>

theorem gt_setup_mem_trap_already_trapped:
  assumes "gt_paddr_record_from_va l va = Some r"
  shows "gt_setup_mem_trap l va scb rcb d =
           (if translate_kv2p (vmi l) va = 0 then None else Some r, l)"
proof (cases "translate_kv2p (vmi l) va = 0")
  case True
  then show ?thesis by (simp add: gt_setup_mem_trap_def)
next
  case False
  with assms show ?thesis by (simp add: gt_setup_mem_trap_registered)
qed

text \<open>In the example the record of \<open>0x1200100\<close> keeps callbacks 7 and 8 and payload
  \<open>0x99\<close> when the address is installed again with 11, 12 and \<open>0x77\<close>.\<close>

theorem gt_setup_mem_trap_already_trapped_witness:
  "gt_paddr_record_from_va example_loop 0x1200100 = Some 2 \<and>
   gt_setup_mem_trap example_loop 0x1200100 11 12 0x77 = (Some 2, example_loop) \<and>
   paddr_store example_loop 2 =
     \<lparr>offset = 0x100, syscall_cb = 7, sysret_cb = 8, parent = 1, data = 0x99\<rparr>"
proof -
  have a: "gt_paddr_record_from_va example_loop 0x1200100 = Some 2"
    by (simp add: example_from_va frame_offset_examples)
  have b: "translate_kv2p (vmi example_loop) 0x1200100 \<noteq> 0"
    by (simp add: example_loop_def example_world_def)
  have c: "paddr_store example_loop 2 =
     \<lparr>offset = 0x100, syscall_cb = 7, sysret_cb = 8, parent = 1, data = 0x99\<rparr>"
    by (simp add: example_loop_def)
  show ?thesis
    using gt_setup_mem_trap_already_trapped[OF a, of 11 12 "0x77"] a b c by simp
qed

section \<open>Registering a batch of callbacks\<close>

lemma keeps_alloc:
  "gt_interrupted (snd (gt_allocate_shadow_frame l)) = gt_interrupted l"
  "translate_ksym2v (vmi (snd (gt_allocate_shadow_frame l))) = translate_ksym2v (vmi l)"
  by (simp_all add: gt_allocate_shadow_frame_def Let_def xc_domain_setmaxmem_def
      xc_domain_increase_reservation_exact_def xc_domain_populate_physmap_exact_def
      split: prod.splits bool.splits option.splits list.splits if_splits)

lemma keeps_setup_shadow:
  "gt_interrupted (snd (gt_setup_shadow l fr)) = gt_interrupted l"
  "translate_ksym2v (vmi (snd (gt_setup_shadow l fr))) = translate_ksym2v (vmi l)"
  using keeps_alloc[of l]
  by (auto simp: gt_setup_shadow_def Let_def xc_altp2m_change_gfn_def
      split: prod.splits bool.splits option.splits if_splits)

lemma keeps_setup_page_record:
  "gt_interrupted (snd (gt_setup_page_record l fr sh off)) = gt_interrupted l"
  "translate_ksym2v (vmi (snd (gt_setup_page_record l fr sh off))) = translate_ksym2v (vmi l)"
  by (auto simp: gt_setup_page_record_def Let_def vmi_write_pa_def vmi_set_mem_event_def
      split: prod.splits option.splits if_splits)

lemma keeps_setup_paddr_record:
  "gt_interrupted (snd (gt_setup_paddr_record l p sh off scb rcb d)) = gt_interrupted l"
  "translate_ksym2v (vmi (snd (gt_setup_paddr_record l p sh off scb rcb d)))
     = translate_ksym2v (vmi l)"
  by (auto simp: gt_setup_paddr_record_def Let_def vmi_write_8_pa_def
      split: prod.splits option.splits if_splits bool.splits)

lemma setup_mem_trap_frame:
  assumes sh: "\<And>l fr. F (snd (gt_setup_shadow l fr)) = F l"
    and pg: "\<And>l fr sh off. F (snd (gt_setup_page_record l fr sh off)) = F l"
    and pd: "\<And>l p sh off scb rcb d. F (snd (gt_setup_paddr_record l p sh off scb rcb d)) = F l"
  shows "F (snd (gt_setup_mem_trap l va scb rcb d)) = F l"
proof (cases "translate_kv2p (vmi l) va = 0")
  case True
  then show ?thesis by (simp add: gt_setup_mem_trap_def)
next
  case False
  define fr where "fr = frame_of (translate_kv2p (vmi l) va)"
  define off where "off = offset_of (translate_kv2p (vmi l) va)"
  obtain x l1 where s1: "gt_setup_shadow l fr = (x, l1)"
    by (cases "gt_setup_shadow l fr")
  have f1: "F l1 = F l" using sh[of l fr] s1 by simp
  show ?thesis
  proof (cases x)
    case None
    then show ?thesis
      using False s1 f1 by (simp add: gt_setup_mem_trap_def Let_def fr_def)
  next
    case (Some shadow)
    obtain y l2 where s2: "gt_setup_page_record l1 fr shadow off = (y, l2)"
      by (cases "gt_setup_page_record l1 fr shadow off")
    have f2: "F l2 = F l1" using pg[of l1 fr shadow off] s2 by simp
    show ?thesis
    proof (cases y)
      case (Inl res)
      then show ?thesis
        using False s1 Some s2 f1 f2
        by (simp add: gt_setup_mem_trap_def Let_def fr_def off_def)
    next
      case (Inr page)
      have "gt_setup_mem_trap l va scb rcb d =
              gt_setup_paddr_record l2 page shadow off scb rcb d"
        using False s1 Some s2 Inr
        by (simp add: gt_setup_mem_trap_def Let_def fr_def off_def)
      then show ?thesis using pd[of l2 page shadow off scb rcb d] f1 f2 by simp
    qed
  qed
qed

lemma keeps_setup_mem_trap:
  "gt_interrupted (snd (gt_setup_mem_trap l va scb rcb d)) = gt_interrupted l"
  "translate_ksym2v (vmi (snd (gt_setup_mem_trap l va scb rcb d))) = translate_ksym2v (vmi l)"
proof -
  show "gt_interrupted (snd (gt_setup_mem_trap l va scb rcb d)) = gt_interrupted l"
    by (rule setup_mem_trap_frame)
      (simp_all add: keeps_setup_shadow keeps_setup_page_record keeps_setup_paddr_record)
  show "translate_ksym2v (vmi (snd (gt_setup_mem_trap l va scb rcb d))) = translate_ksym2v (vmi l)"
    by (rule setup_mem_trap_frame[where F = "\<lambda>l. translate_ksym2v (vmi l)"])
      (simp_all add: keeps_setup_shadow keeps_setup_page_record keeps_setup_paddr_record)
qed

lemma keeps_set_cb:
  "gt_interrupted (snd (gt_loop_set_cb l name scb rcb d)) = gt_interrupted l"
  "translate_ksym2v (vmi (snd (gt_loop_set_cb l name scb rcb d))) = translate_ksym2v (vmi l)"
proof -
  let ?l0 = "l\<lparr>vmi := vmi_pause_vm (vmi l)\<rparr>"
  obtain x l1 where s: "gt_setup_mem_trap ?l0 (translate_ksym2v (vmi ?l0) name) scb rcb d = (x, l1)"
    by (cases "gt_setup_mem_trap ?l0 (translate_ksym2v (vmi ?l0) name) scb rcb d")
  have a: "gt_interrupted l1 = gt_interrupted l"
    "translate_ksym2v (vmi l1) = translate_ksym2v (vmi l)"
    using keeps_setup_mem_trap[of ?l0 "translate_ksym2v (vmi ?l0) name" scb rcb d] s
    by (simp_all add: vmi_pause_vm_def)
  show "gt_interrupted (snd (gt_loop_set_cb l name scb rcb d)) = gt_interrupted l"
    using s a by (cases x) (simp_all add: gt_loop_set_cb_def Let_def vmi_resume_vm_def)
  show "translate_ksym2v (vmi (snd (gt_loop_set_cb l name scb rcb d))) = translate_ksym2v (vmi l)"
    using s a
    by (cases x) (simp_all add: gt_loop_set_cb_def Let_def vmi_resume_vm_def vmi_pause_vm_def)
qed

lemma gt_loop_set_cb_unresolved:
  "translate_ksym2v (vmi l) name = 0 \<Longrightarrow>
   gt_loop_set_cb l name scb rcb d = (False, l\<lparr>vmi := vmi_resume_vm (vmi l)\<rparr>)"
  by (simp add: gt_loop_set_cb_def Let_def vmi_pause_vm_def vmi_resume_vm_def)

lemma set_cbs_from_count:
  "\<not> gt_interrupted l \<Longrightarrow>
   fst (gt_loop_set_cbs_from l cs n) = n + int (length (filter id (gt_loop_set_cb_results l cs)))"
proof (induction cs arbitrary: l n)
  case Nil
  then show ?case by simp
next
  case (Cons c cs)
  obtain ok l' where step:
    "gt_loop_set_cb l (cb_name c) (cb_syscall_cb c) (cb_sysret_cb c) (cb_user_data c) = (ok, l')"
    by (cases "gt_loop_set_cb l (cb_name c) (cb_syscall_cb c) (cb_sysret_cb c) (cb_user_data c)")
  have "\<not> gt_interrupted l'"
    using keeps_set_cb(1)[of l "cb_name c" "cb_syscall_cb c" "cb_sysret_cb c" "cb_user_data c"]
      step Cons.prems by simp
  from Cons.IH[OF this] show ?case
    using Cons.prems step by simp
qed

lemma set_cb_results_length: "length (gt_loop_set_cb_results l cs) = length cs"
  by (induction cs arbitrary: l) (auto split: prod.splits)

lemma set_cbs_from_append:
  "\<not> gt_interrupted l \<Longrightarrow>
   gt_loop_set_cbs_from l (xs @ ys) n =
     (case gt_loop_set_cbs_from l xs n of (n', l') \<Rightarrow> gt_loop_set_cbs_from l' ys n')"
proof (induction xs arbitrary: l n)
  case Nil
  then show ?case by simp
next
  case (Cons c xs)
  obtain ok l' where step:
    "gt_loop_set_cb l (cb_name c) (cb_syscall_cb c) (cb_sysret_cb c) (cb_user_data c) = (ok, l')"
    by (cases "gt_loop_set_cb l (cb_name c) (cb_syscall_cb c) (cb_sysret_cb c) (cb_user_data c)")
  have "\<not> gt_interrupted l'"
    using keeps_set_cb(1)[of l "cb_name c" "cb_syscall_cb c" "cb_sysret_cb c" "cb_user_data c"]
      step Cons.prems by simp
  from Cons.IH[OF this] show ?case
    using Cons.prems step by simp
qed

lemma set_cbs_from_keeps:
  "gt_interrupted (snd (gt_loop_set_cbs_from l cs n)) = gt_interrupted l \<and>
   translate_ksym2v (vmi (snd (gt_loop_set_cbs_from l cs n))) = translate_ksym2v (vmi l)"
proof (induction cs arbitrary: l n)
  case Nil
  then show ?case by simp
next
  case (Cons c cs)
  obtain ok l' where step:
    "gt_loop_set_cb l (cb_name c) (cb_syscall_cb c) (cb_sysret_cb c) (cb_user_data c) = (ok, l')"
    by (cases "gt_loop_set_cb l (cb_name c) (cb_syscall_cb c) (cb_sysret_cb c) (cb_user_data c)")
  have "gt_interrupted l' = gt_interrupted l \<and> translate_ksym2v (vmi l') = translate_ksym2v (vmi l)"
    using keeps_set_cb[of l "cb_name c" "cb_syscall_cb c" "cb_sysret_cb c" "cb_user_data c"]
      step by simp
  then show ?case using Cons.IH[of l'] step by simp
qed

lemma set_cbs_from_shift:
  "gt_loop_set_cbs_from l cs (n + k) =
     (fst (gt_loop_set_cbs_from l cs n) + k, snd (gt_loop_set_cbs_from l cs n))"
proof (induction cs arbitrary: l n)
  case Nil
  then show ?case by simp
next
  case (Cons c cs)
  show ?case
    using Cons.IH[of _ "n + 1"] Cons.IH[of _ n]
    by (auto split: prod.splits simp: add.commute add.left_commute)
qed


text \<open>
  While the loop is not interrupted, \<^verbatim>\<open>gt_loop_set_cbs\<close> runs
  \<^verbatim>\<open>gt_loop_set_cb\<close> on every entry and returns the number of entries for which it
  returned \<^verbatim>\<open>TRUE\<close>. An entry whose symbol resolves to 0 returns \<^verbatim>\<open>FALSE\<close> and
  leaves the loop as it was but for the guest being resumed: no frame is allocated and no
  table changes. Wherever such an entry stands in a batch, the batch gives the count and
  the loop that the entries before it followed by the entries after it give.
\<close>

theorem gt_loop_set_cbs_partial_failure:
  assumes run: "\<not> gt_interrupted l"
  shows "fst (gt_loop_set_cbs l cbs) = int (length (filter id (gt_loop_set_cb_results l cbs))) \<and>
         length (gt_loop_set_cb_results l cbs) = length cbs \<and>
         (translate_ksym2v (vmi l) (cb_name c) = 0 \<longrightarrow>
            gt_loop_set_cb l (cb_name c) (cb_syscall_cb c) (cb_sysret_cb c) (cb_user_data c)
              = (False, l\<lparr>vmi := vmi_resume_vm (vmi l)\<rparr>) \<and>
            gt_loop_set_cbs l (cs1 @ c # cs2) =
              (case gt_loop_set_cbs l cs1 of
                 (n1, l1) \<Rightarrow>
                   (case gt_loop_set_cbs (l1\<lparr>vmi := vmi_resume_vm (vmi l1)\<rparr>) cs2 of
                      (n2, l2) \<Rightarrow> (n1 + n2, l2))))"
proof (intro conjI impI)
  show "fst (gt_loop_set_cbs l cbs) = int (length (filter id (gt_loop_set_cb_results l cbs)))"
    using set_cbs_from_count[OF run, of cbs 0] by (simp add: gt_loop_set_cbs_def)
  show "length (gt_loop_set_cb_results l cbs) = length cbs"
    by (rule set_cb_results_length)
next
  assume bad: "translate_ksym2v (vmi l) (cb_name c) = 0"
  show "gt_loop_set_cb l (cb_name c) (cb_syscall_cb c) (cb_sysret_cb c) (cb_user_data c)
          = (False, l\<lparr>vmi := vmi_resume_vm (vmi l)\<rparr>)"
    using bad by (rule gt_loop_set_cb_unresolved)
  obtain n1 l1 where r1: "gt_loop_set_cbs_from l cs1 0 = (n1, l1)"
    by (cases "gt_loop_set_cbs_from l cs1 0")
  have k1: "\<not> gt_interrupted l1" "translate_ksym2v (vmi l1) (cb_name c) = 0"
    using set_cbs_from_keeps[of l cs1 0] r1 run bad by simp_all
  have "gt_loop_set_cbs_from l (cs1 @ c # cs2) 0 = gt_loop_set_cbs_from l1 (c # cs2) n1"
    using set_cbs_from_append[OF run, of cs1 "c # cs2" 0] r1 by simp
  also have "\<dots> = gt_loop_set_cbs_from (l1\<lparr>vmi := vmi_resume_vm (vmi l1)\<rparr>) cs2 n1"
    using k1 gt_loop_set_cb_unresolved[OF k1(2)] by simp
  also have "\<dots> = (fst (gt_loop_set_cbs_from (l1\<lparr>vmi := vmi_resume_vm (vmi l1)\<rparr>) cs2 0) + n1,
                    snd (gt_loop_set_cbs_from (l1\<lparr>vmi := vmi_resume_vm (vmi l1)\<rparr>) cs2 0))"
    using set_cbs_from_shift[of "l1\<lparr>vmi := vmi_resume_vm (vmi l1)\<rparr>" cs2 0 n1] by simp
  finally show "gt_loop_set_cbs l (cs1 @ c # cs2) =
              (case gt_loop_set_cbs l cs1 of
                 (n1, l1) \<Rightarrow>
                   (case gt_loop_set_cbs (l1\<lparr>vmi := vmi_resume_vm (vmi l1)\<rparr>) cs2 of
                      (n2, l2) \<Rightarrow> (n1 + n2, l2)))"
    using r1 by (simp add: gt_loop_set_cbs_def split: prod.splits)
qed

text \<open>In the example batch the unknown symbol fails, the known one succeeds, and the
  count is 1.\<close>

lemma example_callbacks_results:
  "gt_loop_set_cb_results example_loop example_callbacks = [False, True]"
  by code_simp

theorem gt_loop_set_cbs_partial_failure_witness:
  "\<not> gt_interrupted example_loop \<and>
   translate_ksym2v (vmi example_loop) ''sys_nosuch'' = 0 \<and>
   gt_loop_set_cb_results example_loop example_callbacks = [False, True] \<and>
   fst (gt_loop_set_cbs example_loop example_callbacks) = 1 \<and>
   gt_loop_set_cb example_loop ''sys_nosuch'' 7 8 0 =
     (False, example_loop\<lparr>vmi := vmi_resume_vm (vmi example_loop)\<rparr>)"
proof -
  have a: "\<not> gt_interrupted example_loop" by (simp add: example_loop_def)
  have b: "translate_ksym2v (vmi example_loop) ''sys_nosuch'' = 0"
    by (simp add: example_loop_def example_world_def)
  show ?thesis
    using gt_loop_set_cbs_partial_failure[OF a, of example_callbacks
        "\<lparr>cb_name = ''sys_nosuch'', cb_syscall_cb = 7, cb_sysret_cb = 8, cb_user_data = 0\<rparr>"
        "[]" "[]"]
      a b
    by (simp add: example_callbacks_results)
qed

text \<open>
  C8. The count is not always the number of entries that were installed. In the guest
  where the byte at \<open>0x5000200\<close> cannot be written, the batch of the one entry
  \<open>sys_close\<close> (which resolves to \<open>0x1200200\<close>) returns 1. Afterwards the table holds
  no record for \<open>0x1200200\<close> and the breakpoint byte has not been written:
  \<^verbatim>\<open>gt_setup_mem_trap\<close> has returned the record it could not register,
  \<^verbatim>\<open>gt_loop_set_cb\<close> has taken the non-\<^verbatim>\<open>NULL\<close> result for success, and
  \<^verbatim>\<open>gt_loop_set_cbs\<close> has counted it.
\<close>

theorem gt_loop_set_cbs_counts_failed_install:
  "translate_ksym2v (vmi example_unwritable_loop) ''sys_close'' = 0x1200200 \<and>
   fst (gt_loop_set_cbs example_unwritable_loop [example_close_callback]) = 1 \<and>
   gt_paddr_record_from_va
     (snd (gt_loop_set_cbs example_unwritable_loop [example_close_callback])) 0x1200200 = None \<and>
   phys (vmi (snd (gt_loop_set_cbs example_unwritable_loop [example_close_callback]))) 0x5000200
     = None"
  by code_simp

section \<open>Destroying a page record\<close>

text \<open>
  The install maps \<open>frame\<close> to \<open>shadow\<close> with
  \<^verbatim>\<open>xc_altp2m_change_gfn(..., frame, shadow)\<close>. \<^verbatim>\<open>gt_destroy_page_record\<close> calls
  \<^verbatim>\<open>xc_altp2m_change_gfn(..., page_record->shadow_frame, ~0)\<close>: the entry it drops is
  the one of the shadow frame, so the entry of the original frame stays as it was.
\<close>

lemma destroy_children_altp2m:
  "altp2m (vmi (gt_destroy_children l cs)) = altp2m (vmi l) \<and>
   shadow_view (gt_destroy_children l cs) = shadow_view l \<and>
   page_store (gt_destroy_children l cs) = page_store l"
  by (induction l cs rule: gt_destroy_children.induct)
    (auto simp: gt_destroy_paddr_record_def gt_remove_breakpoint_def Let_def vmi_write_8_pa_def
      vmi_read_8_pa_def split: option.splits prod.splits)

lemma gt_destroy_page_record_leaves_remap:
  assumes "frame (page_store l p) \<noteq> shadow_frame (page_store l p)"
  shows "altp2m (vmi (gt_destroy_page_record l p)) (shadow_view l, frame (page_store l p)) =
         altp2m (vmi l) (shadow_view l, frame (page_store l p))"
  using assms destroy_children_altp2m[of l "children (page_store l p)"]
  by (simp add: gt_destroy_page_record_def Let_def vmi_set_mem_event_def
      xc_altp2m_change_gfn_def xc_domain_decrease_reservation_exact_def)


text \<open>
  C2. Destroying the page record of the example: the access trap on frame \<open>0x1200\<close> is
  off and the shadow frame \<open>0x5000\<close> is released (its bytes are no longer accessible),
  but the shadow view still remaps frame \<open>0x1200\<close> to the released frame \<open>0x5000\<close>.
\<close>

theorem gt_destroy_page_record_remap_survives:
  "gt_page_record_collection example_installed_loop = [(0x5000, 1)] \<and>
   frame (page_store example_installed_loop 1) = 0x1200 \<and>
   shadow_frame (page_store example_installed_loop 1) = 0x5000 \<and>
   altp2m (vmi example_installed_loop) (1, 0x1200) = Some 0x5000 \<and>
   mem_event (vmi (gt_destroy_page_record example_installed_loop 1)) (1, 0x1200)
     = VMI_MEMACCESS_N \<and>
   phys (vmi (gt_destroy_page_record example_installed_loop 1)) 0x5000100 = None \<and>
   altp2m (vmi (gt_destroy_page_record example_installed_loop 1)) (1, 0x1200) = Some 0x5000"
  by code_simp

section \<open>Teardown restores the return slots\<close>

lemma read_bytes_length_cong:
  "(\<And>x. (m x = None) = (m' x = None)) \<Longrightarrow>
   length (read_bytes m a n) = length (read_bytes m' a n)"
proof (induction n arbitrary: a)
  case 0
  then show ?case by simp
next
  case (Suc n)
  show ?case
  proof (cases "m a")
    case None
    then have "m' a = None" using Suc.prems[of a] by simp
    with None show ?thesis by simp
  next
    case (Some b)
    then obtain b' where "m' a = Some b'" using Suc.prems[of a] by (cases "m' a") auto
    with Some Suc.IH[OF Suc.prems, of "a + 1"] show ?thesis by simp
  qed
qed

lemma write_bytes_count:
  "snd (write_bytes m a bs) = length (read_bytes m a (length bs))"
proof (induction bs arbitrary: m a)
  case Nil
  then show ?case by simp
next
  case (Cons b bs)
  show ?case
  proof (cases "m a")
    case None
    then show ?thesis by simp
  next
    case (Some old)
    have "length (read_bytes (m(a \<mapsto> b)) (a + 1) (length bs)) =
          length (read_bytes m (a + 1) (length bs))"
      by (rule read_bytes_length_cong) (use Some in auto)
    moreover have "snd (write_bytes (m(a \<mapsto> b)) (a + 1) bs) =
          length (read_bytes (m(a \<mapsto> b)) (a + 1) (length bs))"
      by (rule Cons.IH)
    moreover have "snd (write_bytes m a (b # bs)) = Suc (snd (write_bytes (m(a \<mapsto> b)) (a + 1) bs))"
      using Some by (simp split: prod.splits)
    moreover have "length (read_bytes m a (length (b # bs))) =
          Suc (length (read_bytes m (a + 1) (length bs)))"
      using Some by simp
    ultimately show ?thesis by (simp only:)
  qed
qed

lemma length_bytes_of_64: "length (bytes_of_64 v) = 8"
  by (simp add: bytes_of_64_def)

lemma read_64_accessible: "(vmi_read_64_pa w pa = None) = (\<not> accessible_64 w pa)"
  by (simp add: vmi_read_64_pa_def accessible_64_def Let_def)

lemma write_64_ok: "fst (vmi_write_64_pa w pa v) = accessible_64 w pa"
  using write_bytes_count[of "phys w" pa "bytes_of_64 v"]
  by (auto simp: vmi_write_64_pa_def accessible_64_def length_bytes_of_64 split: prod.splits)

lemma write_64_effects:
  "effects (snd (vmi_write_64_pa w pa v)) =
     (if accessible_64 w pa then Write_64 pa v # effects w else effects w)"
  using write_64_ok[of w pa v]
  by (auto simp: vmi_write_64_pa_def split: prod.splits if_splits)

lemma write_64_keeps_access:
  "accessible_64 (snd (vmi_write_64_pa w pa v)) pa' = accessible_64 w pa'"
proof -
  obtain m' n where wb: "write_bytes (phys w) pa (bytes_of_64 v) = (m', n)"
    by (cases "write_bytes (phys w) pa (bytes_of_64 v)")
  have p: "phys (snd (vmi_write_64_pa w pa v)) = m'"
    using wb by (simp add: vmi_write_64_pa_def)
  have "(m' x = None) = (phys w x = None)" for x
    using wb by (rule write_bytes_preserves)
  then have "length (read_bytes m' pa' 8) = length (read_bytes (phys w) pa' 8)"
    by (rule read_bytes_length_cong)
  then show ?thesis by (simp add: accessible_64_def p)
qed

lemma restore_effects:
  "effects (vmi (gt_restore_return_addr l st)) =
     (if translate_kv2p (vmi l) (thread_id st) \<noteq> 0 \<and>
         accessible_64 (vmi l) (translate_kv2p (vmi l) (thread_id st))
      then Write_64 (translate_kv2p (vmi l) (thread_id st)) (return_addr l) # effects (vmi l)
      else effects (vmi l))"
proof (cases "translate_kv2p (vmi l) (thread_id st) = 0")
  case True
  then show ?thesis by (simp add: gt_restore_return_addr_def)
next
  case False
  have "vmi (gt_restore_return_addr l st) =
          snd (vmi_write_64_pa (vmi l) (translate_kv2p (vmi l) (thread_id st)) (return_addr l))"
    using False by (simp add: gt_restore_return_addr_def Let_def split: prod.splits)
  then show ?thesis using False by (simp add: write_64_effects)
qed

lemma restore_keeps_access:
  "accessible_64 (vmi (gt_restore_return_addr l st)) pa = accessible_64 (vmi l) pa"
proof (cases "translate_kv2p (vmi l) (thread_id st) = 0")
  case True
  then show ?thesis by (simp add: gt_restore_return_addr_def)
next
  case False
  have "vmi (gt_restore_return_addr l st) =
          snd (vmi_write_64_pa (vmi l) (translate_kv2p (vmi l) (thread_id st)) (return_addr l))"
    using False by (simp add: gt_restore_return_addr_def Let_def split: prod.splits)
  then show ?thesis by (simp add: write_64_keeps_access)
qed

lemma restore_all_writes:
  "\<exists>new. effects (vmi (gt_restore_all l xs)) = new @ effects (vmi l) \<and>
         (\<forall>key st. (key, st) \<in> set xs \<and> translate_kv2p (vmi l) (thread_id st) \<noteq> 0 \<and>
             accessible_64 (vmi l) (translate_kv2p (vmi l) (thread_id st)) \<longrightarrow>
             Write_64 (translate_kv2p (vmi l) (thread_id st)) (return_addr l) \<in> set new)"
proof (induction xs arbitrary: l)
  case Nil
  then show ?case by simp
next
  case (Cons x xs)
  obtain k0 st0 where x: "x = (k0, st0)" by (cases x)
  let ?l1 = "gt_restore_return_addr l st0"
  from Cons.IH[of ?l1] obtain new where
    new: "effects (vmi (gt_restore_all ?l1 xs)) = new @ effects (vmi ?l1)"
    and rest: "\<And>key st. (key, st) \<in> set xs \<Longrightarrow>
             translate_kv2p (vmi ?l1) (thread_id st) \<noteq> 0 \<Longrightarrow>
             accessible_64 (vmi ?l1) (translate_kv2p (vmi ?l1) (thread_id st)) \<Longrightarrow>
             Write_64 (translate_kv2p (vmi ?l1) (thread_id st)) (return_addr ?l1) \<in> set new"
    by blast
  define here where "here =
     (if translate_kv2p (vmi l) (thread_id st0) \<noteq> 0 \<and>
         accessible_64 (vmi l) (translate_kv2p (vmi l) (thread_id st0))
      then [Write_64 (translate_kv2p (vmi l) (thread_id st0)) (return_addr l)] else [])"
  have e1: "effects (vmi ?l1) = here @ effects (vmi l)"
    by (simp add: restore_effects here_def)
  have eff: "effects (vmi (gt_restore_all l (x # xs))) = (new @ here) @ effects (vmi l)"
    using new e1 x by simp
  have "Write_64 (translate_kv2p (vmi l) (thread_id st)) (return_addr l) \<in> set (new @ here)"
    if mem: "(key, st) \<in> set (x # xs)"
      and tr: "translate_kv2p (vmi l) (thread_id st) \<noteq> 0"
      and acc: "accessible_64 (vmi l) (translate_kv2p (vmi l) (thread_id st))"
    for key st
  proof (cases "(key, st) = x")
    case True
    then have "st = st0" using x by simp
    then show ?thesis using tr acc by (simp add: here_def)
  next
    case False
    then have "(key, st) \<in> set xs" using mem by simp
    from rest[OF this] tr acc show ?thesis
      by (simp add: restore_fields restore_keeps_access)
  qed
  with eff show ?case by blast
qed

lemma destroy_children_effects:
  "effects (vmi (gt_destroy_children l cs)) = effects (vmi l)"
  by (induction l cs rule: gt_destroy_children.induct)
    (auto simp: gt_destroy_paddr_record_def gt_remove_breakpoint_def Let_def vmi_write_8_pa_def
      vmi_read_8_pa_def split: option.splits prod.splits)

lemma destroy_page_record_keeps:
  "effects (vmi (gt_destroy_page_record l p)) = effects (vmi l)"
  "gt_ret_addr_mapping (gt_destroy_page_record l p) = gt_ret_addr_mapping l"
proof -
  have m: "gt_ret_addr_mapping (gt_destroy_children l cs) = gt_ret_addr_mapping l" for l cs
    by (induction l cs rule: gt_destroy_children.induct)
      (auto simp: gt_destroy_paddr_record_def gt_remove_breakpoint_def Let_def
        split: option.splits prod.splits)
  show "effects (vmi (gt_destroy_page_record l p)) = effects (vmi l)"
    by (simp add: gt_destroy_page_record_def Let_def vmi_set_mem_event_def
        xc_altp2m_change_gfn_def xc_domain_decrease_reservation_exact_def
        destroy_children_effects)
  show "gt_ret_addr_mapping (gt_destroy_page_record l p) = gt_ret_addr_mapping l"
    by (simp add: gt_destroy_page_record_def Let_def m)
qed

lemma destroy_page_records_keeps:
  "effects (vmi (gt_destroy_page_records l ps)) = effects (vmi l) \<and>
   gt_ret_addr_mapping (gt_destroy_page_records l ps) = gt_ret_addr_mapping l"
  by (induction l ps rule: gt_destroy_page_records.induct)
    (simp_all add: destroy_page_record_keeps)

lemma restore_all_mapping:
  "gt_ret_addr_mapping (gt_restore_all l xs) = gt_ret_addr_mapping l"
  by (induction l xs rule: gt_restore_all.induct) (simp_all add: restore_fields)


text \<open>
  \<^verbatim>\<open>gt_loop_quit\<close> empties the tracker, and for every entry that was in it whose
  return slot (the entry's \<open>thread_id\<close>) translates and is accessible, the completed
  writes include the write of the canonical return address to that slot. The write is
  made by the entry's destroy notifier \<^verbatim>\<open>gt_restore_return_addr\<close>, which runs as the
  entry is discarded. (When the slot does not translate or cannot be written the source
  prints an error and goes on.)
\<close>

lemma gt_loop_quit_completes_restores:
  assumes entry: "(key, st) \<in> set (gt_ret_addr_mapping l)"
    and translates: "translate_kv2p (vmi l) (thread_id st) \<noteq> 0"
    and accessible: "accessible_64 (vmi l) (translate_kv2p (vmi l) (thread_id st))"
  shows "\<exists>new. effects (vmi (gt_loop_quit l)) = new @ effects (vmi l) \<and>
           Write_64 (translate_kv2p (vmi l) (thread_id st)) (return_addr l) \<in> set new \<and>
           gt_ret_addr_mapping (gt_loop_quit l) = []"
proof -
  define l1 where "l1 = l\<lparr>vmi := vmi_pause_vm (vmi l), gt_page_translation := Map.empty,
                         gt_ret_addr_mapping := []\<rparr>"
  define l2 where "l2 = gt_restore_all l1 (gt_ret_addr_mapping l)"
  have same: "translate_kv2p (vmi l1) = translate_kv2p (vmi l)" "return_addr l1 = return_addr l"
    "effects (vmi l1) = effects (vmi l)" "accessible_64 (vmi l1) = accessible_64 (vmi l)"
    by (simp_all add: l1_def vmi_pause_vm_def accessible_64_def fun_eq_iff)
  from restore_all_writes[of l1 "gt_ret_addr_mapping l"] obtain new where
    new: "effects (vmi l2) = new @ effects (vmi l)"
    and w: "Write_64 (translate_kv2p (vmi l) (thread_id st)) (return_addr l) \<in> set new"
    using entry translates accessible unfolding l2_def same by blast
  have q: "gt_loop_quit l =
      (gt_page_record_collection_remove_all l2)
        \<lparr>vmi := vmi_resume_vm (snd (xc_altp2m_switch_to_view
                   (vmi (gt_page_record_collection_remove_all l2)) 0)),
         gt_interrupted := True\<rparr>"
    by (simp add: gt_loop_quit_def Let_def gt_ret_addr_mapping_remove_all_def l2_def l1_def)
  have e3: "effects (vmi (gt_page_record_collection_remove_all l2)) = effects (vmi l2)"
    "gt_ret_addr_mapping (gt_page_record_collection_remove_all l2) = gt_ret_addr_mapping l2"
    using destroy_page_records_keeps[of "l2\<lparr>gt_page_record_collection := []\<rparr>"
        "gt_page_record_collection l2"]
    by (simp_all add: gt_page_record_collection_remove_all_def)
  have m2: "gt_ret_addr_mapping l2 = []"
    by (simp add: l2_def restore_all_mapping l1_def)
  have "effects (vmi (gt_loop_quit l)) = new @ effects (vmi l)"
    by (simp add: q e3 new vmi_resume_vm_def xc_altp2m_switch_to_view_def)
  moreover have "gt_ret_addr_mapping (gt_loop_quit l) = []"
    by (simp add: q e3 m2)
  ultimately show ?thesis using w by blast
qed

text \<open>A completed 64-bit write is what a read of the same address returns next.\<close>

lemma write_bytes_elsewhere:
  "(\<And>i. i < length bs \<Longrightarrow> x \<noteq> a + of_nat i) \<Longrightarrow> fst (write_bytes m a bs) x = m x"
proof (induction bs arbitrary: m a)
  case Nil
  then show ?case by simp
next
  case (Cons b bs)
  have xa: "x \<noteq> a" using Cons.prems[of 0] by simp
  have rest: "x \<noteq> a + 1 + of_nat i" if "i < length bs" for i
    using Cons.prems[of "Suc i"] that by (simp add: add.assoc)
  show ?case
  proof (cases "m a")
    case None
    then show ?thesis by simp
  next
    case (Some old)
    have "fst (write_bytes (m(a \<mapsto> b)) (a + 1) bs) x = (m(a \<mapsto> b)) x"
      by (rule Cons.IH) (use rest in auto)
    then show ?thesis using Some xa by (simp add: split_beta)
  qed
qed

lemma word_64_succ_distinct:
  "i < 2 ^ 64 - 1 \<Longrightarrow> (a :: addr_t) \<noteq> a + 1 + of_nat i"
proof
  assume i: "i < 2 ^ 64 - 1" and eq: "a = a + 1 + of_nat i"
  have "(of_nat (Suc i) :: addr_t) = 0"
    using eq by (simp add: add.assoc)
  then have "2 ^ 64 dvd Suc i"
    by (simp only: word_of_nat_eq_0_iff) simp
  then have "2 ^ 64 \<le> Suc i" by (rule dvd_imp_le) simp
  then show False using i by simp
qed

lemma read_after_write_bytes:
  "length bs < 2 ^ 64 \<Longrightarrow> snd (write_bytes m a bs) = length bs \<Longrightarrow>
   read_bytes (fst (write_bytes m a bs)) a (length bs) = bs"
proof (induction bs arbitrary: m a)
  case Nil
  then show ?case by simp
next
  case (Cons b bs)
  from Cons.prems(2) obtain old where old: "m a = Some old"
    by (cases "m a") auto
  let ?m1 = "m(a \<mapsto> b)"
  have cnt: "snd (write_bytes ?m1 (a + 1) bs) = length bs"
    using Cons.prems(2) old by (simp split: prod.splits)
  have len: "length bs < 2 ^ 64" using Cons.prems(1) by simp
  have ih: "read_bytes (fst (write_bytes ?m1 (a + 1) bs)) (a + 1) (length bs) = bs"
    using len cnt by (rule Cons.IH)
  have "fst (write_bytes ?m1 (a + 1) bs) a = ?m1 a"
  proof (rule write_bytes_elsewhere)
    fix i assume "i < length bs"
    then have "i < 2 ^ 64 - 1" using Cons.prems(1) by simp
    then show "a \<noteq> a + 1 + of_nat i" by (rule word_64_succ_distinct)
  qed
  then have head: "fst (write_bytes ?m1 (a + 1) bs) a = Some b" by simp
  have w: "fst (write_bytes m a (b # bs)) = fst (write_bytes ?m1 (a + 1) bs)"
    using old by (simp split: prod.splits)
  show ?case
    unfolding w using head ih by simp
qed

lemma word_of_bytes_slice:
  "word_of_bytes (map (\<lambda>i. ucast (drop_bit (8 * i) v)) [k..<k + n]) =
     take_bit (8 * n) (drop_bit (8 * k) (v :: addr_t))"
proof (induction n arbitrary: k)
  case 0
  then show ?case by simp
next
  case (Suc n)
  have split: "[k..<k + Suc n] = k # [Suc k..<Suc k + n]"
    by (simp add: upt_rec)
  show ?case
    unfolding split list.map word_of_bytes.simps Suc.IH
    by (rule bit_word_eqI) (auto simp: bit_simps ac_simps)
qed

lemma word_of_bytes_of_64: "word_of_bytes (bytes_of_64 v) = v"
  using word_of_bytes_slice[of v 0 8] by (simp add: bytes_of_64_def take_bit_word_eq_self)

lemma read_after_write_64:
  assumes "accessible_64 w pa"
  shows "vmi_read_64_pa (snd (vmi_write_64_pa w pa v)) pa = Some v"
proof -
  have cnt: "snd (write_bytes (phys w) pa (bytes_of_64 v)) = length (bytes_of_64 v)"
    using assms write_bytes_count[of "phys w" pa "bytes_of_64 v"]
    by (simp add: accessible_64_def length_bytes_of_64)
  have "read_bytes (fst (write_bytes (phys w) pa (bytes_of_64 v))) pa (length (bytes_of_64 v))
          = bytes_of_64 v"
    by (rule read_after_write_bytes) (simp_all add: cnt length_bytes_of_64)
  moreover have "phys (snd (vmi_write_64_pa w pa v)) = fst (write_bytes (phys w) pa (bytes_of_64 v))"
    by (simp add: vmi_write_64_pa_def split: prod.splits)
  ultimately show ?thesis
    by (simp add: vmi_read_64_pa_def Let_def length_bytes_of_64 word_of_bytes_of_64)
qed


text \<open>So at the moment an entry is discarded its return slot holds the canonical return
  address, when the slot translates and is accessible.\<close>

lemma gt_restore_return_addr_slot:
  assumes "translate_kv2p (vmi l) (thread_id st) \<noteq> 0"
    and "accessible_64 (vmi l) (translate_kv2p (vmi l) (thread_id st))"
  shows "vmi_read_64_pa (vmi (gt_restore_return_addr l st)) (translate_kv2p (vmi l) (thread_id st))
           = Some (return_addr l)"
  using assms read_after_write_64[OF assms(2), of "return_addr l"]
  by (simp add: gt_restore_return_addr_def Let_def split_beta)

subsection \<open>The return slots after teardown\<close>

text \<open>
  A read of a 64-bit word depends on its eight bytes only, and a 64-bit write changes no
  other byte. So the word an entry's notifier has written stays in its slot through the
  notifiers of the entries discarded after it, when their slots are the same slot or
  share no byte with it, and through the destruction of the page records, when the slot
  lies outside the shadow frames.
\<close>

lemma slot_bytes_iff: "x \<in> set (slot_bytes a) \<longleftrightarrow> (\<exists>i<8. x = a + of_nat i)"
  by (auto simp: slot_bytes_def)

lemma read_bytes_cong:
  "(\<And>i. i < n \<Longrightarrow> m (a + of_nat i) = m' (a + of_nat i)) \<Longrightarrow>
   read_bytes m a n = read_bytes m' a n"
proof (induction n arbitrary: a)
  case 0
  then show ?case by simp
next
  case (Suc n)
  have h: "m a = m' a" using Suc.prems[of 0] by simp
  have "read_bytes m (a + 1) n = read_bytes m' (a + 1) n"
  proof (rule Suc.IH)
    fix i assume "i < n"
    then show "m (a + 1 + of_nat i) = m' (a + 1 + of_nat i)"
      using Suc.prems[of "Suc i"] by (simp add: add.assoc)
  qed
  then show ?case using h by (simp split: option.splits)
qed

lemma read_64_cong:
  assumes "\<forall>x \<in> set (slot_bytes pa). phys w x = phys w' x"
  shows "vmi_read_64_pa w pa = vmi_read_64_pa w' pa"
proof -
  have "phys w (pa + of_nat i) = phys w' (pa + of_nat i)" if "i < 8" for i
  proof -
    have "pa + of_nat i \<in> set (slot_bytes pa)"
      using that slot_bytes_iff by blast
    with assms show ?thesis by blast
  qed
  then have "read_bytes (phys w) pa 8 = read_bytes (phys w') pa 8"
    by (rule read_bytes_cong)
  then show ?thesis by (simp add: vmi_read_64_pa_def)
qed

lemma write_64_elsewhere:
  assumes "x \<notin> set (slot_bytes pa)"
  shows "phys (snd (vmi_write_64_pa w pa v)) x = phys w x"
proof -
  have "x \<noteq> pa + of_nat i" if "i < length (bytes_of_64 v)" for i
    using that assms slot_bytes_iff[of x pa] by (auto simp: length_bytes_of_64)
  then have "fst (write_bytes (phys w) pa (bytes_of_64 v)) x = phys w x"
    by (rule write_bytes_elsewhere)
  then show ?thesis by (simp add: vmi_write_64_pa_def split_beta)
qed

lemma restore_elsewhere:
  assumes "translate_kv2p (vmi l) (thread_id st) = 0 \<or>
           x \<notin> set (slot_bytes (translate_kv2p (vmi l) (thread_id st)))"
  shows "phys (vmi (gt_restore_return_addr l st)) x = phys (vmi l) x"
  using assms
  by (auto simp: gt_restore_return_addr_def Let_def split_beta write_64_elsewhere)

lemma restore_all_slot:
  assumes "vmi_read_64_pa (vmi l) pa = Some (return_addr l) \<or>
           (\<exists>key st. (key, st) \<in> set xs \<and> translate_kv2p (vmi l) (thread_id st) = pa)"
    and "pa \<noteq> 0" and "accessible_64 (vmi l) pa"
    and "\<forall>(key', st') \<in> set xs.
           translate_kv2p (vmi l) (thread_id st') = 0 \<or>
           translate_kv2p (vmi l) (thread_id st') = pa \<or>
           slots_apart (translate_kv2p (vmi l) (thread_id st')) pa"
  shows "vmi_read_64_pa (vmi (gt_restore_all l xs)) pa = Some (return_addr l)"
  using assms
proof (induction xs arbitrary: l)
  case Nil
  then show ?case by simp
next
  case (Cons x xs)
  obtain k0 st0 where x: "x = (k0, st0)" by (cases x)
  let ?l1 = "gt_restore_return_addr l st0"
  let ?pa0 = "translate_kv2p (vmi l) (thread_id st0)"
  have acc1: "accessible_64 (vmi ?l1) pa"
    using Cons.prems(3) by (simp add: restore_keeps_access)
  have rest: "\<forall>(key', st') \<in> set xs.
           translate_kv2p (vmi ?l1) (thread_id st') = 0 \<or>
           translate_kv2p (vmi ?l1) (thread_id st') = pa \<or>
           slots_apart (translate_kv2p (vmi ?l1) (thread_id st')) pa"
    using Cons.prems(4) by (simp add: restore_fields)
  have first: "?pa0 = 0 \<or> ?pa0 = pa \<or> slots_apart ?pa0 pa"
    using Cons.prems(4) x by simp
  have start: "vmi_read_64_pa (vmi ?l1) pa = Some (return_addr ?l1) \<or>
           (\<exists>key st. (key, st) \<in> set xs \<and> translate_kv2p (vmi ?l1) (thread_id st) = pa)"
  proof (cases "?pa0 = pa")
    case True
    then have "vmi_read_64_pa (vmi ?l1) pa = Some (return_addr l)"
      using gt_restore_return_addr_slot[of l st0] Cons.prems(2,3) by simp
    then show ?thesis by (simp add: restore_fields)
  next
    case False
    have same: "\<forall>y \<in> set (slot_bytes pa). phys (vmi ?l1) y = phys (vmi l) y"
    proof
      fix y assume y: "y \<in> set (slot_bytes pa)"
      have "?pa0 = 0 \<or> y \<notin> set (slot_bytes ?pa0)"
        using first False y by (auto simp: slots_apart_def)
      then show "phys (vmi ?l1) y = phys (vmi l) y" by (rule restore_elsewhere)
    qed
    have rd: "vmi_read_64_pa (vmi ?l1) pa = vmi_read_64_pa (vmi l) pa"
      using same by (rule read_64_cong)
    from Cons.prems(1) show ?thesis
    proof
      assume "vmi_read_64_pa (vmi l) pa = Some (return_addr l)"
      then show ?thesis by (simp add: rd restore_fields)
    next
      assume "\<exists>key st. (key, st) \<in> set (x # xs) \<and> translate_kv2p (vmi l) (thread_id st) = pa"
      then obtain key st where "(key, st) \<in> set (x # xs)"
        "translate_kv2p (vmi l) (thread_id st) = pa" by blast
      then have "(key, st) \<in> set xs" using False x by auto
      then show ?thesis
        using \<open>translate_kv2p (vmi l) (thread_id st) = pa\<close> by (auto simp: restore_fields)
    qed
  qed
  have "vmi_read_64_pa (vmi (gt_restore_all ?l1 xs)) pa = Some (return_addr ?l1)"
    using start Cons.prems(2) acc1 rest by (rule Cons.IH)
  then show ?case by (simp add: x restore_fields)
qed

lemma destroy_paddr_record_stores:
  "page_store (gt_destroy_paddr_record l r) = page_store l"
  "paddr_store (gt_destroy_paddr_record l r) = paddr_store l"
  by (simp_all add: gt_destroy_paddr_record_def gt_remove_breakpoint_def Let_def split_beta
      split: option.splits)

lemma destroy_paddr_record_phys:
  assumes "x \<noteq> frame_base (shadow_frame (page_store l (parent (paddr_store l r))))
                  + offset (paddr_store l r)"
  shows "phys (vmi (gt_destroy_paddr_record l r)) x = phys (vmi l) x"
  using assms
  by (simp add: gt_destroy_paddr_record_def gt_remove_breakpoint_def Let_def split_beta
      vmi_write_8_pa_def vmi_read_8_pa_def split: option.splits)

lemma destroy_children_stores:
  "page_store (gt_destroy_children l cs) = page_store l \<and>
   paddr_store (gt_destroy_children l cs) = paddr_store l"
  by (induction l cs rule: gt_destroy_children.induct)
    (simp_all add: destroy_paddr_record_stores)

lemma destroy_children_phys:
  assumes "\<forall>(off, r) \<in> set cs.
             x \<noteq> frame_base (shadow_frame (page_store l (parent (paddr_store l r))))
                   + offset (paddr_store l r)"
  shows "phys (vmi (gt_destroy_children l cs)) x = phys (vmi l) x"
  using assms
proof (induction l cs rule: gt_destroy_children.induct)
  case (1 l)
  then show ?case by simp
next
  case (2 l off r rest)
  have "phys (vmi (gt_destroy_children (gt_destroy_paddr_record l r) rest)) x =
        phys (vmi (gt_destroy_paddr_record l r)) x"
    by (rule "2.IH") (use "2.prems" in \<open>simp add: destroy_paddr_record_stores\<close>)
  also have "\<dots> = phys (vmi l) x"
    by (rule destroy_paddr_record_phys) (use "2.prems" in simp)
  finally show ?case by simp
qed

lemma destroy_page_record_stores:
  "page_store (gt_destroy_page_record l p) = page_store l"
  "paddr_store (gt_destroy_page_record l p) = paddr_store l"
  by (simp_all add: gt_destroy_page_record_def Let_def destroy_children_stores)

lemma destroy_page_record_phys:
  assumes "outside_page_record l p x"
  shows "phys (vmi (gt_destroy_page_record l p)) x = phys (vmi l) x"
proof -
  have "phys (vmi (gt_destroy_children l (children (page_store l p)))) x = phys (vmi l) x"
    by (rule destroy_children_phys) (use assms in \<open>simp add: outside_page_record_def\<close>)
  then show ?thesis
    using assms
    by (simp add: gt_destroy_page_record_def Let_def vmi_set_mem_event_def
        xc_altp2m_change_gfn_def xc_domain_decrease_reservation_exact_def
        destroy_children_stores outside_page_record_def)
qed

lemma outside_page_record_stores:
  "page_store l' = page_store l \<Longrightarrow> paddr_store l' = paddr_store l \<Longrightarrow>
   outside_page_record l' p x = outside_page_record l p x"
  by (simp add: outside_page_record_def)

lemma destroy_page_records_phys:
  assumes "\<forall>(shadow, p) \<in> set ps. outside_page_record l p x"
  shows "phys (vmi (gt_destroy_page_records l ps)) x = phys (vmi l) x"
  using assms
proof (induction l ps rule: gt_destroy_page_records.induct)
  case (1 l)
  then show ?case by simp
next
  case (2 l shadow p rest)
  have "phys (vmi (gt_destroy_page_records (gt_destroy_page_record l p) rest)) x =
        phys (vmi (gt_destroy_page_record l p)) x"
    by (rule "2.IH")
      (use "2.prems" in \<open>simp add: outside_page_record_stores[OF destroy_page_record_stores]\<close>)
  also have "\<dots> = phys (vmi l) x"
    by (rule destroy_page_record_phys) (use "2.prems" in simp)
  finally show ?case by simp
qed

lemma restore_all_stores:
  "page_store (gt_restore_all l xs) = page_store l \<and>
   paddr_store (gt_restore_all l xs) = paddr_store l \<and>
   gt_page_record_collection (gt_restore_all l xs) = gt_page_record_collection l \<and>
   return_addr (gt_restore_all l xs) = return_addr l"
  by (induction l xs rule: gt_restore_all.induct) (simp_all add: restore_fields)

lemma restore_all_append:
  "gt_restore_all l (xs @ ys) = gt_restore_all (gt_restore_all l xs) ys"
  by (induction l xs rule: gt_restore_all.induct) simp_all

lemma restore_all_keeps:
  "translate_kv2p (vmi (gt_restore_all l xs)) = translate_kv2p (vmi l) \<and>
   accessible_64 (vmi (gt_restore_all l xs)) pa = accessible_64 (vmi l) pa"
  by (induction l xs rule: gt_restore_all.induct)
    (simp_all add: restore_fields restore_keeps_access)

lemma gt_restore_all_slot_at_discard:
  assumes "translate_kv2p (vmi l) (thread_id st) \<noteq> 0"
    and "accessible_64 (vmi l) (translate_kv2p (vmi l) (thread_id st))"
  shows "vmi_read_64_pa (vmi (gt_restore_all l (xs @ [(key, st)])))
           (translate_kv2p (vmi l) (thread_id st)) = Some (return_addr l)"
  using assms gt_restore_return_addr_slot[of "gt_restore_all l xs" st]
    restore_all_keeps[of l xs "translate_kv2p (vmi l) (thread_id st)"]
    restore_all_stores[of l xs]
  by (simp add: restore_all_append)

text \<open>
  C5. At teardown, for every entry still in the tracker: when \<^verbatim>\<open>gt_loop_quit\<close>
  returns, the return slot of the entry's thread holds the canonical return address again
  (a read of the slot returns \<open>return_addr\<close>), and the tracker is empty. The slot is the
  physical address the entry's \<open>thread_id\<close> translates to. This holds when the slot
  translates and its eight bytes are accessible (otherwise \<^verbatim>\<open>gt_restore_return_addr\<close>
  prints an error and goes on), when no other entry's slot overlaps it in part (the slots
  of distinct threads are distinct stack words), and when it lies outside the shadow
  frames, which teardown rewrites and releases after the entries are discarded (a stack
  word is not in a frame the tracer allocated for itself).
\<close>

theorem gt_loop_quit_restores_return_slots:
  assumes entry: "(key, st) \<in> set (gt_ret_addr_mapping l)"
    and translates: "translate_kv2p (vmi l) (thread_id st) \<noteq> 0"
    and accessible: "accessible_64 (vmi l) (translate_kv2p (vmi l) (thread_id st))"
    and apart: "\<forall>(key', st') \<in> set (gt_ret_addr_mapping l).
           translate_kv2p (vmi l) (thread_id st') = 0 \<or>
           translate_kv2p (vmi l) (thread_id st') = translate_kv2p (vmi l) (thread_id st) \<or>
           slots_apart (translate_kv2p (vmi l) (thread_id st'))
                       (translate_kv2p (vmi l) (thread_id st))"
    and outside: "\<forall>a \<in> set (slot_bytes (translate_kv2p (vmi l) (thread_id st))).
           outside_shadow_frames l a"
  shows "vmi_read_64_pa (vmi (gt_loop_quit l)) (translate_kv2p (vmi l) (thread_id st))
           = Some (return_addr l) \<and>
         gt_ret_addr_mapping (gt_loop_quit l) = []"
proof -
  define pa where "pa = translate_kv2p (vmi l) (thread_id st)"
  define l1 where "l1 = l\<lparr>vmi := vmi_pause_vm (vmi l), gt_page_translation := Map.empty,
                         gt_ret_addr_mapping := []\<rparr>"
  define l2 where "l2 = gt_restore_all l1 (gt_ret_addr_mapping l)"
  define l3 where "l3 = gt_page_record_collection_remove_all l2"
  have same: "translate_kv2p (vmi l1) = translate_kv2p (vmi l)" "return_addr l1 = return_addr l"
    "accessible_64 (vmi l1) = accessible_64 (vmi l)"
    "page_store l1 = page_store l" "paddr_store l1 = paddr_store l"
    "gt_page_record_collection l1 = gt_page_record_collection l"
    by (simp_all add: l1_def vmi_pause_vm_def accessible_64_def fun_eq_iff)
  have r2: "vmi_read_64_pa (vmi l2) pa = Some (return_addr l1)"
    unfolding l2_def
  proof (rule restore_all_slot)
    show "vmi_read_64_pa (vmi l1) pa = Some (return_addr l1) \<or>
          (\<exists>key st. (key, st) \<in> set (gt_ret_addr_mapping l) \<and>
                    translate_kv2p (vmi l1) (thread_id st) = pa)"
      using entry by (auto simp: same pa_def)
    show "pa \<noteq> 0" using translates by (simp add: pa_def)
    show "accessible_64 (vmi l1) pa" using accessible by (simp add: same pa_def)
    show "\<forall>(key', st') \<in> set (gt_ret_addr_mapping l).
           translate_kv2p (vmi l1) (thread_id st') = 0 \<or>
           translate_kv2p (vmi l1) (thread_id st') = pa \<or>
           slots_apart (translate_kv2p (vmi l1) (thread_id st')) pa"
      using apart by (simp add: same pa_def)
  qed
  have st2: "page_store l2 = page_store l" "paddr_store l2 = paddr_store l"
    "gt_page_record_collection l2 = gt_page_record_collection l"
    using restore_all_stores[of l1 "gt_ret_addr_mapping l"] by (simp_all add: l2_def same)
  have keep: "\<forall>x \<in> set (slot_bytes pa). phys (vmi l3) x = phys (vmi l2) x"
  proof
    fix x assume "x \<in> set (slot_bytes pa)"
    then have o: "outside_shadow_frames l x" using outside by (simp add: pa_def)
    have "phys (vmi (gt_destroy_page_records (l2\<lparr>gt_page_record_collection := []\<rparr>)
                       (gt_page_record_collection l2))) x =
          phys (vmi (l2\<lparr>gt_page_record_collection := []\<rparr>)) x"
    proof (rule destroy_page_records_phys)
      have "outside_page_record (l2\<lparr>gt_page_record_collection := []\<rparr>) p x =
            outside_page_record l p x" for p
        by (rule outside_page_record_stores) (simp_all add: st2)
      then show "\<forall>(shadow, p) \<in> set (gt_page_record_collection l2).
               outside_page_record (l2\<lparr>gt_page_record_collection := []\<rparr>) p x"
        using o by (simp add: outside_shadow_frames_def st2)
    qed
    then show "phys (vmi l3) x = phys (vmi l2) x"
      by (simp add: l3_def gt_page_record_collection_remove_all_def)
  qed
  have q: "gt_loop_quit l =
      l3\<lparr>vmi := vmi_resume_vm (snd (xc_altp2m_switch_to_view (vmi l3) 0)),
         gt_interrupted := True\<rparr>"
    by (simp add: gt_loop_quit_def Let_def gt_ret_addr_mapping_remove_all_def l3_def l2_def
        l1_def)
  have ph: "phys (vmi (gt_loop_quit l)) = phys (vmi l3)"
    by (simp add: q vmi_resume_vm_def xc_altp2m_switch_to_view_def)
  have "vmi_read_64_pa (vmi (gt_loop_quit l)) pa = vmi_read_64_pa (vmi l2) pa"
    by (rule read_64_cong) (use keep in \<open>simp add: ph\<close>)
  then have a: "vmi_read_64_pa (vmi (gt_loop_quit l)) pa = Some (return_addr l)"
    using r2 by (simp add: same)
  have m3: "gt_ret_addr_mapping l3 = gt_ret_addr_mapping l2"
    using destroy_page_records_keeps[of "l2\<lparr>gt_page_record_collection := []\<rparr>"
        "gt_page_record_collection l2"]
    by (simp add: l3_def gt_page_record_collection_remove_all_def)
  have "gt_ret_addr_mapping l2 = []"
    by (simp add: l2_def restore_all_mapping l1_def)
  then have b: "gt_ret_addr_mapping (gt_loop_quit l) = []"
    by (simp add: q m3)
  show ?thesis using a b by (simp add: pa_def)
qed

text \<open>In the example two threads are inside the traced call when the loop quits. The
  slot at \<open>0x7000\<close> holds the trampoline address before, and the canonical return address
  \<open>0x3000\<close> after.\<close>

theorem gt_loop_quit_restores_return_slots_witness:
  "vmi_read_64_pa (vmi example_quit_loop) 0x7000 = Some (trampoline_addr example_quit_loop) \<and>
   (0x7000, example_state) \<in> set (gt_ret_addr_mapping example_quit_loop) \<and>
   translate_kv2p (vmi example_quit_loop) (thread_id example_state) = 0x7000 \<and>
   accessible_64 (vmi example_quit_loop) 0x7000 \<and>
   return_addr example_quit_loop = 0x3000 \<and>
   vmi_read_64_pa (vmi (gt_loop_quit example_quit_loop)) 0x7000 = Some 0x3000 \<and>
   gt_ret_addr_mapping (gt_loop_quit example_quit_loop) = []"
proof -
  have before: "vmi_read_64_pa (vmi example_quit_loop) 0x7000
                  = Some (trampoline_addr example_quit_loop)"
    by code_simp
  have a: "(0x7000, example_state) \<in> set (gt_ret_addr_mapping example_quit_loop)"
    by (simp add: example_quit_loop_def)
  have kv: "translate_kv2p (vmi example_quit_loop) (thread_id example_state) = 0x7000"
    by (simp add: example_quit_loop_def example_loop_def example_world_def example_state_def)
  have acc: "accessible_64 (vmi example_quit_loop) 0x7000"
    by code_simp
  have r: "return_addr example_quit_loop = 0x3000"
    by (simp add: example_quit_loop_def example_loop_def)
  have b: "translate_kv2p (vmi example_quit_loop) (thread_id example_state) \<noteq> 0"
    by (simp add: kv)
  have c: "accessible_64 (vmi example_quit_loop)
             (translate_kv2p (vmi example_quit_loop) (thread_id example_state))"
    by (simp add: kv acc)
  have d: "\<forall>(key', st') \<in> set (gt_ret_addr_mapping example_quit_loop).
           translate_kv2p (vmi example_quit_loop) (thread_id st') = 0 \<or>
           translate_kv2p (vmi example_quit_loop) (thread_id st') =
             translate_kv2p (vmi example_quit_loop) (thread_id example_state) \<or>
           slots_apart (translate_kv2p (vmi example_quit_loop) (thread_id st'))
                       (translate_kv2p (vmi example_quit_loop) (thread_id example_state))"
    by code_simp
  have e: "\<forall>a \<in> set (slot_bytes (translate_kv2p (vmi example_quit_loop)
                                    (thread_id example_state))).
           outside_shadow_frames example_quit_loop a"
    by code_simp
  show ?thesis
    using gt_loop_quit_restores_return_slots[OF a b c d e] before a kv acc r
    by simp
qed


section \<open>The two dispatchers compared\<close>

text \<open>Overwriting a 64-bit word leaves the memory the last write alone would leave.\<close>

lemma write_bytes_at:
  assumes len: "length bs < 2 ^ 64" and ok: "snd (write_bytes m a bs) = length bs"
    and i: "i < length bs"
  shows "fst (write_bytes m a bs) (a + of_nat i) = Some (bs ! i)"
proof -
  have r: "read_bytes (fst (write_bytes m a bs)) a (length bs) = bs"
    using len ok by (rule read_after_write_bytes)
  then have "length (read_bytes (fst (write_bytes m a bs)) a (length bs)) = length bs"
    by simp
  from read_bytes_nth[OF this i] show ?thesis by (simp add: r)
qed

lemma write_bytes_overwrite:
  assumes eq: "length bs = length bs'" and len: "length bs < 2 ^ 64"
    and ok: "snd (write_bytes m a bs) = length bs"
  shows "fst (write_bytes (fst (write_bytes m a bs)) a bs') = fst (write_bytes m a bs')"
proof
  fix x
  let ?m1 = "fst (write_bytes m a bs)"
  have acc: "(?m1 y = None) = (m y = None)" for y
    by (rule write_bytes_preserves[of m a bs _ "snd (write_bytes m a bs)"]) simp
  have ok': "snd (write_bytes m a bs') = length bs'"
    using ok eq by (simp add: write_bytes_count)
  have "length (read_bytes ?m1 a (length bs')) = length (read_bytes m a (length bs'))"
    by (rule read_bytes_length_cong) (rule acc)
  then have ok1: "snd (write_bytes ?m1 a bs') = length bs'"
    using ok' by (simp add: write_bytes_count)
  show "fst (write_bytes ?m1 a bs') x = fst (write_bytes m a bs') x"
  proof (cases "\<exists>i<length bs'. x = a + of_nat i")
    case True
    then obtain i where i: "i < length bs'" "x = a + of_nat i" by blast
    have "fst (write_bytes ?m1 a bs') (a + of_nat i) = Some (bs' ! i)"
      by (rule write_bytes_at) (use len eq ok1 i in simp_all)
    moreover have "fst (write_bytes m a bs') (a + of_nat i) = Some (bs' ! i)"
      by (rule write_bytes_at) (use len eq ok' i in simp_all)
    ultimately show ?thesis using i by simp
  next
    case False
    then have out: "\<And>i. i < length bs' \<Longrightarrow> x \<noteq> a + of_nat i" by blast
    have "fst (write_bytes ?m1 a bs') x = ?m1 x"
      by (rule write_bytes_elsewhere) (rule out)
    also have "\<dots> = m x"
      by (rule write_bytes_elsewhere) (use out eq in simp)
    also have "\<dots> = fst (write_bytes m a bs') x"
      by (rule write_bytes_elsewhere[symmetric]) (rule out)
    finally show ?thesis .
  qed
qed

lemma write_64_phys:
  "phys (snd (vmi_write_64_pa w pa v)) = fst (write_bytes (phys w) pa (bytes_of_64 v))"
  by (simp add: vmi_write_64_pa_def split_beta)

lemma write_64_other_fields:
  "translate_kv2p (snd (vmi_write_64_pa w pa v)) = translate_kv2p w"
  "vcpu_rip (snd (vmi_write_64_pa w pa v)) = vcpu_rip w"
  "dtb_to_pid (snd (vmi_write_64_pa w pa v)) = dtb_to_pid w"
  by (simp_all add: vmi_write_64_pa_def split_beta)

lemma write_64_twice:
  assumes "accessible_64 w pa" and "phys w' = phys (snd (vmi_write_64_pa w pa v))"
  shows "phys (snd (vmi_write_64_pa w' pa v')) = phys (snd (vmi_write_64_pa w pa v'))"
proof -
  have ok: "snd (write_bytes (phys w) pa (bytes_of_64 v)) = length (bytes_of_64 v)"
    using assms(1) by (simp add: write_bytes_count accessible_64_def length_bytes_of_64)
  have "fst (write_bytes (fst (write_bytes (phys w) pa (bytes_of_64 v))) pa (bytes_of_64 v')) =
        fst (write_bytes (phys w) pa (bytes_of_64 v'))"
    by (rule write_bytes_overwrite) (simp_all add: length_bytes_of_64 ok)
  then show ?thesis using assms(2) by (simp add: write_64_phys)
qed

lemma restore_phys:
  "phys (vmi (gt_restore_return_addr l st)) =
     (if translate_kv2p (vmi l) (thread_id st) = 0 then phys (vmi l)
      else phys (snd (vmi_write_64_pa (vmi l) (translate_kv2p (vmi l) (thread_id st))
                       (return_addr l))))"
  by (simp add: gt_restore_return_addr_def Let_def split_beta)

lemma set_update_cases:
  "(key, st) \<in> set (AList.update k v xs) \<Longrightarrow> (key, st) = (k, v) \<or> (key, st) \<in> set xs"
  by (induction xs) (auto split: if_splits)

lemma set_delete_subset:
  "(key, st) \<in> set (AList.delete k xs) \<Longrightarrow> (key, st) \<in> set xs"
  by (simp add: AList.delete_eq)

lemma from_pa_tables:
  assumes "gt_page_translation l' = gt_page_translation l"
    and "gt_page_record_collection l' = gt_page_record_collection l"
    and "page_store l' = page_store l"
  shows "gt_paddr_record_from_pa l' pa = gt_paddr_record_from_pa l pa"
  by (simp only: gt_paddr_record_from_pa_def lookup_shadow_def assms)

lemma insert_fields:
  "gt_ret_addr_mapping (gt_ret_addr_mapping_insert l k st) = AList.update k st (gt_ret_addr_mapping l)"
  "translate_kv2p (vmi (gt_ret_addr_mapping_insert l k st)) = translate_kv2p (vmi l)"
  "vcpu_rip (vmi (gt_ret_addr_mapping_insert l k st)) = vcpu_rip (vmi l)"
  "trampoline_addr (gt_ret_addr_mapping_insert l k st) = trampoline_addr l"
  "return_addr (gt_ret_addr_mapping_insert l k st) = return_addr l"
  "gt_page_translation (gt_ret_addr_mapping_insert l k st) = gt_page_translation l"
  "gt_page_record_collection (gt_ret_addr_mapping_insert l k st) = gt_page_record_collection l"
  "page_store (gt_ret_addr_mapping_insert l k st) = page_store l"
  by (simp_all add: gt_ret_addr_mapping_insert_def Let_def restore_fields split: option.splits)

lemma insert_phys:
  assumes inv: "\<forall>(key, old) \<in> set (gt_ret_addr_mapping l). thread_id old = key"
    and tr: "translate_kv2p (vmi l) k \<noteq> 0"
  shows "phys (vmi (gt_ret_addr_mapping_insert l k st)) = phys (vmi l) \<or>
         phys (vmi (gt_ret_addr_mapping_insert l k st)) =
           phys (snd (vmi_write_64_pa (vmi l) (translate_kv2p (vmi l) k) (return_addr l)))"
proof (cases "map_of (gt_ret_addr_mapping l) k")
  case None
  then show ?thesis by (simp add: gt_ret_addr_mapping_insert_def Let_def)
next
  case (Some old)
  then have "(k, old) \<in> set (gt_ret_addr_mapping l)" by (rule map_of_SomeD)
  then have "thread_id old = k" using inv by auto
  then show ?thesis
    using Some tr by (simp add: gt_ret_addr_mapping_insert_def Let_def restore_phys)
qed

lemma gt_call_site_recorded:
  assumes site: "gla event \<noteq> trampoline_addr l"
    and found: "gt_paddr_record_from_va l (gla event) = Some r"
    and tr: "translate_kv2p (vmi l) (rsp event) \<noteq> 0"
    and rd: "vmi_read_64_pa (vmi l) (translate_kv2p (vmi l) (rsp event)) = Some (return_addr l)"
    and inv: "\<forall>(key, st) \<in> set (gt_ret_addr_mapping l). thread_id st = key"
  shows "\<exists>l' d. gt_breakpoint_cb l event =
           ({VMI_EVENT_RESPONSE_TOGGLE_SINGLESTEP, VMI_EVENT_RESPONSE_VMM_PAGETABLE_ID},
            event\<lparr>reinject := 0, slat_id := 0\<rparr>, l') \<and>
         phys (vmi l') = fst (write_bytes (phys (vmi l)) (translate_kv2p (vmi l) (rsp event))
                               (bytes_of_64 (trampoline_addr l))) \<and>
         translate_kv2p (vmi l') = translate_kv2p (vmi l) \<and>
         vcpu_rip (vmi l') = vcpu_rip (vmi l) \<and>
         trampoline_addr l' = trampoline_addr l \<and>
         return_addr l' = return_addr l \<and>
         gt_page_translation l' = gt_page_translation l \<and>
         gt_page_record_collection l' = gt_page_record_collection l \<and>
         page_store l' = page_store l \<and>
         gt_ret_addr_mapping l' =
           AList.update (rsp event)
             \<lparr>syscall_paddr_record = r, state_data = d, thread_id = rsp event\<rparr>
             (gt_ret_addr_mapping l)"
proof -
  define pa where "pa = translate_kv2p (vmi l) (rsp event)"
  define cb where "cb = call_syscall_cb (vmi l) (syscall_cb (paddr_store l r))
                          (dtb_to_pid (vmi l) (cr3 event)) (rsp event) (data (paddr_store l r))"
  define d where "d = fst cb"
  define l1 where "l1 = l\<lparr>vmi := snd cb\<rparr>"
  define st where "st = \<lparr>syscall_paddr_record = r, state_data = d, thread_id = rsp event\<rparr>"
  define l2 where "l2 = gt_ret_addr_mapping_insert l1 (rsp event) st"
  define l3 where "l3 = l2\<lparr>vmi := snd (vmi_write_64_pa (vmi l2) pa (trampoline_addr l2))\<rparr>"
  have w1: "phys (vmi l1) = phys (vmi l)" "translate_kv2p (vmi l1) = translate_kv2p (vmi l)"
    "vcpu_rip (vmi l1) = vcpu_rip (vmi l)" "return_addr l1 = return_addr l"
    "trampoline_addr l1 = trampoline_addr l" "gt_ret_addr_mapping l1 = gt_ret_addr_mapping l"
    "gt_page_translation l1 = gt_page_translation l"
    "gt_page_record_collection l1 = gt_page_record_collection l" "page_store l1 = page_store l"
    by (simp_all add: l1_def cb_def call_syscall_cb_def)
  have run: "gt_breakpoint_cb l event =
           ({VMI_EVENT_RESPONSE_TOGGLE_SINGLESTEP, VMI_EVENT_RESPONSE_VMM_PAGETABLE_ID},
            event\<lparr>reinject := 0, slat_id := 0\<rparr>, l3)"
    using site found tr rd
    by (simp add: gt_breakpoint_cb_def Let_def split_beta l3_def l2_def st_def l1_def d_def
        cb_def pa_def)
  have acc: "accessible_64 (vmi l1) pa"
    using rd read_64_accessible[of "vmi l" pa]
    by (simp add: accessible_64_def w1 pa_def)
  have T2: "trampoline_addr l2 = trampoline_addr l"
    by (simp add: l2_def insert_fields w1)
  have "phys (vmi l2) = phys (vmi l1) \<or>
        phys (vmi l2) = phys (snd (vmi_write_64_pa (vmi l1) (translate_kv2p (vmi l1) (rsp event))
                                    (return_addr l1)))"
    unfolding l2_def by (rule insert_phys) (use inv tr in \<open>simp_all add: w1\<close>)
  then have p3: "phys (vmi l3) = fst (write_bytes (phys (vmi l)) pa (bytes_of_64 (trampoline_addr l)))"
  proof
    assume "phys (vmi l2) = phys (vmi l1)"
    then show ?thesis by (simp add: l3_def write_64_phys w1 T2)
  next
    assume "phys (vmi l2) = phys (snd (vmi_write_64_pa (vmi l1) (translate_kv2p (vmi l1) (rsp event))
                                    (return_addr l1)))"
    then have "phys (vmi l2) = phys (snd (vmi_write_64_pa (vmi l1) pa (return_addr l1)))"
      by (simp add: pa_def w1)
    from write_64_twice[OF acc this, of "trampoline_addr l"]
    show ?thesis by (simp add: l3_def T2 write_64_phys w1)
  qed
  have rest: "translate_kv2p (vmi l3) = translate_kv2p (vmi l)"
    "vcpu_rip (vmi l3) = vcpu_rip (vmi l)"
    "trampoline_addr l3 = trampoline_addr l" "return_addr l3 = return_addr l"
    "gt_page_translation l3 = gt_page_translation l"
    "gt_page_record_collection l3 = gt_page_record_collection l"
    "page_store l3 = page_store l"
    "gt_ret_addr_mapping l3 = AList.update (rsp event) st (gt_ret_addr_mapping l)"
    by (simp_all add: l3_def l2_def insert_fields w1 write_64_other_fields)
  show ?thesis
    using run p3 rest unfolding st_def pa_def by blast
qed

lemma gt_return_site_found:
  assumes site: "gla event = trampoline_addr l"
    and found: "map_of (gt_ret_addr_mapping l) (rsp event - return_addr_width l) = Some st"
    and own: "thread_id st = rsp event - return_addr_width l"
    and tr: "translate_kv2p (vmi l) (rsp event - return_addr_width l) \<noteq> 0"
  shows "\<exists>l'. gt_breakpoint_cb l event = (VMI_EVENT_RESPONSE_NONE, event\<lparr>reinject := 0\<rparr>, l') \<and>
         phys (vmi l') = fst (write_bytes (phys (vmi l))
                               (translate_kv2p (vmi l) (rsp event - return_addr_width l))
                               (bytes_of_64 (return_addr l))) \<and>
         translate_kv2p (vmi l') = translate_kv2p (vmi l) \<and>
         vcpu_rip (vmi l') = (vcpu_rip (vmi l))(vcpu_id event := return_addr l) \<and>
         trampoline_addr l' = trampoline_addr l \<and>
         return_addr l' = return_addr l \<and>
         gt_page_translation l' = gt_page_translation l \<and>
         gt_page_record_collection l' = gt_page_record_collection l \<and>
         page_store l' = page_store l \<and>
         gt_ret_addr_mapping l' =
           AList.delete (rsp event - return_addr_width l) (gt_ret_addr_mapping l)"
proof -
  define tid where "tid = rsp event - return_addr_width l"
  define w2 where "w2 = vmi_set_vcpureg_rip
      (call_sysret_cb (vmi l) (sysret_cb (paddr_store l (syscall_paddr_record st)))
         (dtb_to_pid (vmi l) (cr3 event)) tid (state_data st))
      (return_addr l) (vcpu_id event)"
  define l1 where "l1 = l\<lparr>vmi := w2, gt_ret_addr_mapping := AList.delete tid (gt_ret_addr_mapping l)\<rparr>"
  define l2 where "l2 = gt_restore_return_addr l1 st"
  have w: "phys w2 = phys (vmi l)" "translate_kv2p w2 = translate_kv2p (vmi l)"
    "vcpu_rip w2 = (vcpu_rip (vmi l))(vcpu_id event := return_addr l)"
    by (simp_all add: w2_def vmi_set_vcpureg_rip_def call_sysret_cb_def)
  have run: "gt_breakpoint_cb l event = (VMI_EVENT_RESPONSE_NONE, event\<lparr>reinject := 0\<rparr>, l2)"
    using site found
    by (simp add: gt_breakpoint_cb_def Let_def gt_ret_addr_mapping_remove_def l2_def l1_def
        w2_def tid_def)
  have p: "phys (vmi l2) = fst (write_bytes (phys (vmi l)) (translate_kv2p (vmi l) tid)
                                  (bytes_of_64 (return_addr l)))"
    using tr own by (simp add: l2_def restore_phys l1_def w write_64_phys tid_def)
  have rest: "translate_kv2p (vmi l2) = translate_kv2p (vmi l)"
    "vcpu_rip (vmi l2) = (vcpu_rip (vmi l))(vcpu_id event := return_addr l)"
    "trampoline_addr l2 = trampoline_addr l" "return_addr l2 = return_addr l"
    "gt_page_translation l2 = gt_page_translation l"
    "gt_page_record_collection l2 = gt_page_record_collection l"
    "page_store l2 = page_store l"
    "gt_ret_addr_mapping l2 = AList.delete tid (gt_ret_addr_mapping l)"
    by (simp_all add: l2_def restore_fields l1_def w)
  show ?thesis
    using run p rest unfolding tid_def by blast
qed

lemma example_variants_agree: "variants_agree example_loop example_vf_state"
  by (simp add: variants_agree_def example_vf_state_def gt_paddr_record_from_pa_def
      vf_paddr_record_from_pa_def lookup_shadow_def Let_def)
    (simp add: example_loop_def)


text \<open>The example states of the identifier-based variant agree with their loops.\<close>

lemma variants_agree_example_vf_of:
  assumes "gt_page_translation l = gt_page_translation example_loop"
    and "gt_page_record_collection l = gt_page_record_collection example_loop"
    and "page_store l = page_store example_loop"
    and "trampoline_addr l = trampoline_addr example_loop"
    and "return_addr l = return_addr example_loop"
    and "\<forall>(key, st) \<in> set (gt_ret_addr_mapping l). thread_id st = key"
  shows "variants_agree l (example_vf_of l)"
proof -
  have g: "gt_paddr_record_from_pa l pa = gt_paddr_record_from_pa example_loop pa" for pa
    by (rule from_pa_tables) (rule assms)+
  have f: "vf_page_translation (example_vf_of l) = vf_page_translation example_vf_state"
    "vf_page_record_collection (example_vf_of l) = vf_page_record_collection example_vf_state"
    "vf_page_store (example_vf_of l) = vf_page_store example_vf_state"
    by (simp_all add: example_vf_of_def)
  have v: "vf_paddr_record_from_pa (example_vf_of l) pa =
           vf_paddr_record_from_pa example_vf_state pa" for pa
    by (simp only: vf_paddr_record_from_pa_def f)
  have e: "gt_paddr_record_from_pa example_loop pa = vf_paddr_record_from_pa example_vf_state pa"
    "trampoline_addr example_loop = vf_trampoline_addr example_vf_state"
    "return_addr example_loop = return_point_addr example_vf_state" for pa
    using example_variants_agree by (simp_all add: variants_agree_def)
  show ?thesis
    unfolding variants_agree_def
    using assms(6) by (simp add: g v e assms(4,5)) (simp add: example_vf_of_def)
qed

lemma example_narrow_agree:
  "variants_agree example_narrow_loop (example_vf_of example_narrow_loop)"
  by (rule variants_agree_example_vf_of)
    (simp_all add: example_narrow_loop_def example_loop_in_call_def example_state_def)

lemma example_unmapped_agree:
  "variants_agree example_unmapped_loop (example_vf_of example_unmapped_loop)"
  by (rule variants_agree_example_vf_of)
    (simp_all add: example_unmapped_loop_def example_loop_in_call_def example_state_def)

lemma example_unmapped_call_agree:
  "variants_agree example_unmapped_call_loop (example_vf_of example_unmapped_call_loop)"
  by (rule variants_agree_example_vf_of)
    (simp_all add: example_unmapped_call_loop_def example_loop_def)

lemma example_unreadable_agree:
  "variants_agree example_unreadable_loop (example_vf_of example_unreadable_loop)"
  by (rule variants_agree_example_vf_of)
    (simp_all add: example_unreadable_loop_def example_loop_def)

text \<open>
  The two dispatchers do not answer every trap alike. Each of the following pairs of
  states agrees (\<open>variants_agree\<close>) before the trap.

  \<^item> A breakpoint that neither variant emplaced: \<^verbatim>\<open>gt_breakpoint_cb\<close> returns
    \<open>VMI_EVENT_RESPONSE_NONE\<close>, \<^verbatim>\<open>vf_breakpoint_cb\<close> returns
    \<open>VMI_EVENT_RESPONSE_EMULATE\<close>.

  \<^item> A return trap on a guest whose address width is 4: \<^verbatim>\<open>gt_breakpoint_cb\<close> looks the
    thread up under \<^verbatim>\<open>rsp - return_addr_width\<close>, finds it, sets RIP and discards the
    entry; \<^verbatim>\<open>vf_breakpoint_cb\<close> looks under \<^verbatim>\<open>rsp - 8\<close>, finds nothing and does
    nothing.

  \<^item> A return trap of a thread whose return slot no longer translates:
    \<^verbatim>\<open>gt_restore_return_addr\<close> tests the translation and writes nothing;
    \<^verbatim>\<open>vf_breakpoint_cb\<close> writes the return address to the physical address 0 that
    \<^verbatim>\<open>vmi_translate_kv2p\<close> returned.

  \<^item> A call trap whose return slot does not translate, while the word at physical
    address 0 is the canonical return address: \<^verbatim>\<open>gt_breakpoint_cb\<close> tests the
    translation and records nothing; \<^verbatim>\<open>vf_breakpoint_cb\<close> reads the word at 0, files
    the thread and writes the trampoline address there.

  \<^item> A call trap whose return slot cannot be read: \<^verbatim>\<open>gt_breakpoint_cb\<close> tests the
    status of the read and records nothing; \<^verbatim>\<open>vf_breakpoint_cb\<close> compares its
    uninitialised local, and files the thread when that holds the canonical return
    address.
\<close>

theorem breakpoint_cb_variants_differ:
  "(variants_agree example_loop example_vf_state \<and>
    fst (gt_breakpoint_cb example_loop (example_event\<lparr>gla := 0x1300100\<rparr>))
      = VMI_EVENT_RESPONSE_NONE \<and>
    fst (vf_breakpoint_cb 0 example_vf_state (example_event\<lparr>gla := 0x1300100\<rparr>))
      = {VMI_EVENT_RESPONSE_EMULATE} \<and>
    fst (vf_breakpoint_cb 0 example_vf_state (example_event\<lparr>gla := 0x1300100\<rparr>))
      \<noteq> fst (gt_breakpoint_cb example_loop (example_event\<lparr>gla := 0x1300100\<rparr>))) \<and>
   (variants_agree example_narrow_loop (example_vf_of example_narrow_loop) \<and>
    return_addr_width example_narrow_loop = 4 \<and>
    map_of (gt_ret_addr_mapping example_narrow_loop) 0x7000 = Some example_state \<and>
    vf_ret_addr_mapping (example_vf_of example_narrow_loop) 0x7000 = Some 2 \<and>
    vcpu_rip (vmi (snd (snd (gt_breakpoint_cb example_narrow_loop
                               example_narrow_return_event)))) 0
      = 0x3000 \<and>
    vcpu_rip (vf_vmi (snd (snd (vf_breakpoint_cb 0 (example_vf_of example_narrow_loop)
                                   example_narrow_return_event)))) 0
      = 0 \<and>
    map_of (gt_ret_addr_mapping
              (snd (snd (gt_breakpoint_cb example_narrow_loop example_narrow_return_event))))
           0x7000 = None \<and>
    vf_ret_addr_mapping
      (snd (snd (vf_breakpoint_cb 0 (example_vf_of example_narrow_loop)
                   example_narrow_return_event))) 0x7000 = Some 2) \<and>
   (variants_agree example_unmapped_loop (example_vf_of example_unmapped_loop) \<and>
    translate_kv2p (vmi example_unmapped_loop) 0x7000 = 0 \<and>
    map_of (gt_ret_addr_mapping example_unmapped_loop) 0x7000 = Some example_state \<and>
    phys (vmi (snd (snd (gt_breakpoint_cb example_unmapped_loop example_return_event)))) 1
      = Some 0x90 \<and>
    phys (vf_vmi (snd (snd (vf_breakpoint_cb 0 (example_vf_of example_unmapped_loop)
                               example_return_event)))) 1
      = Some 0x30) \<and>
   (variants_agree example_unmapped_call_loop (example_vf_of example_unmapped_call_loop) \<and>
    translate_kv2p (vmi example_unmapped_call_loop) (rsp example_event) = 0 \<and>
    vmi_read_64_pa (vmi example_unmapped_call_loop) 0 = Some 0x3000 \<and>
    gt_paddr_record_from_va example_unmapped_call_loop (gla example_event) = Some 2 \<and>
    map_of (gt_ret_addr_mapping
              (snd (snd (gt_breakpoint_cb example_unmapped_call_loop example_event))))
           0x7000 = None \<and>
    vf_ret_addr_mapping
      (snd (snd (vf_breakpoint_cb 0 (example_vf_of example_unmapped_call_loop) example_event)))
      0x7000 = Some 2 \<and>
    vmi_read_64_pa
      (vmi (snd (snd (gt_breakpoint_cb example_unmapped_call_loop example_event)))) 0
      = Some 0x3000 \<and>
    vmi_read_64_pa
      (vf_vmi (snd (snd (vf_breakpoint_cb 0 (example_vf_of example_unmapped_call_loop)
                           example_event)))) 0
      = Some 0x2003) \<and>
   (variants_agree example_unreadable_loop (example_vf_of example_unreadable_loop) \<and>
    translate_kv2p (vmi example_unreadable_loop) (rsp example_event) = 0x7000 \<and>
    vmi_read_64_pa (vmi example_unreadable_loop) 0x7000 = None \<and>
    gt_paddr_record_from_va example_unreadable_loop (gla example_event) = Some 2 \<and>
    map_of (gt_ret_addr_mapping
              (snd (snd (gt_breakpoint_cb example_unreadable_loop example_event))))
           0x7000 = None \<and>
    vf_ret_addr_mapping
      (snd (snd (vf_breakpoint_cb 0x3000 (example_vf_of example_unreadable_loop)
                   example_event)))
      0x7000 = Some 2)"
proof (intro conjI)
  show "variants_agree example_loop example_vf_state"
    by (rule example_variants_agree)
  show g: "fst (gt_breakpoint_cb example_loop (example_event\<lparr>gla := 0x1300100\<rparr>))
             = VMI_EVENT_RESPONSE_NONE"
    by (simp add: gt_breakpoint_cb_def Let_def example_from_va frame_offset_examples)
      (simp add: example_loop_def)
  have "vf_paddr_record_from_va example_vf_state 0x1300100 = None"
    by (simp add: vf_paddr_record_from_va_def vf_paddr_record_from_pa_def example_vf_state_def
        example_loop_def example_world_def Let_def frame_offset_examples)
  then show v: "fst (vf_breakpoint_cb 0 example_vf_state (example_event\<lparr>gla := 0x1300100\<rparr>))
             = {VMI_EVENT_RESPONSE_EMULATE}"
    by (simp add: vf_breakpoint_cb_def Let_def example_vf_state_def)
  show "fst (vf_breakpoint_cb 0 example_vf_state (example_event\<lparr>gla := 0x1300100\<rparr>))
      \<noteq> fst (gt_breakpoint_cb example_loop (example_event\<lparr>gla := 0x1300100\<rparr>))"
    by (simp only: g v VMI_EVENT_RESPONSE_NONE_def) simp
  show "variants_agree example_narrow_loop (example_vf_of example_narrow_loop)"
    by (rule example_narrow_agree)
  show "variants_agree example_unmapped_loop (example_vf_of example_unmapped_loop)"
    by (rule example_unmapped_agree)
  show "variants_agree example_unmapped_call_loop (example_vf_of example_unmapped_call_loop)"
    by (rule example_unmapped_call_agree)
  show "variants_agree example_unreadable_loop (example_vf_of example_unreadable_loop)"
    by (rule example_unreadable_agree)
qed code_simp+

text \<open>
  C9, amended. Let the two variants trace the same guest in the same way
  (\<open>variants_agree\<close>), on a guest whose word width is 8. For a trap at the trampoline,
  or at an address that carries a breakpoint of the tracer, where the return slot of the
  thread translates (and, for a call-site trap, is accessible), both dispatchers return
  the same response and leave the same event (\<open>reinject\<close>, \<open>slat_id\<close>), and
  afterwards the variants agree again: the same guest memory, so the same stack words,
  the same instruction pointers, and the same threads in the tracker, each filed under
  the same breakpoint record. Each restriction excludes one of the differences above.
\<close>

theorem vf_breakpoint_cb_agrees_on_serviced_traps:
  assumes agree: "variants_agree l s"
    and width: "return_addr_width l = 8"
    and ours: "gla event = trampoline_addr l \<or> gt_paddr_record_from_va l (gla event) \<noteq> None"
    and call_slot: "gla event = trampoline_addr l \<or>
         (translate_kv2p (vmi l) (rsp event) \<noteq> 0 \<and>
          accessible_64 (vmi l) (translate_kv2p (vmi l) (rsp event)))"
    and return_slot: "gla event \<noteq> trampoline_addr l \<or>
         translate_kv2p (vmi l) (rsp event - 8) \<noteq> 0"
  shows "fst (vf_breakpoint_cb uninit s event) = fst (gt_breakpoint_cb l event) \<and>
         fst (snd (vf_breakpoint_cb uninit s event)) = fst (snd (gt_breakpoint_cb l event)) \<and>
         variants_agree (snd (snd (gt_breakpoint_cb l event)))
                        (snd (snd (vf_breakpoint_cb uninit s event)))"
proof -
  from agree have
    ph: "phys (vf_vmi s) = phys (vmi l)" and kv: "translate_kv2p (vf_vmi s) = translate_kv2p (vmi l)"
    and rip: "vcpu_rip (vf_vmi s) = vcpu_rip (vmi l)"
    and T: "vf_trampoline_addr s = trampoline_addr l"
    and R: "return_point_addr s = return_addr l"
    and tabs: "\<And>pa. gt_paddr_record_from_pa l pa = vf_paddr_record_from_pa s pa"
    and thr: "\<And>tid. map_option syscall_paddr_record (map_of (gt_ret_addr_mapping l) tid) =
                     vf_ret_addr_mapping s tid"
    and inv: "\<forall>(key, st) \<in> set (gt_ret_addr_mapping l). thread_id st = key"
    by (simp_all add: variants_agree_def)
  have rd: "vmi_read_64_pa (vf_vmi s) = vmi_read_64_pa (vmi l)"
    by (simp add: vmi_read_64_pa_def fun_eq_iff ph)
  show ?thesis
  proof (cases "gla event = trampoline_addr l")
    case False
    then obtain r where r: "gt_paddr_record_from_va l (gla event) = Some r"
      using ours by auto
    then have r': "vf_paddr_record_from_va s (gla event) = Some r"
      using tabs[of "translate_kv2p (vmi l) (gla event)"]
      by (simp add: gt_paddr_record_from_va_def vf_paddr_record_from_va_def kv)
    define pa where "pa = translate_kv2p (vmi l) (rsp event)"
    have tr: "pa \<noteq> 0" and acc: "accessible_64 (vmi l) pa"
      using call_slot False by (simp_all add: pa_def)
    then obtain ra where ra: "vmi_read_64_pa (vmi l) pa = Some ra"
      using read_64_accessible[of "vmi l" pa] by (cases "vmi_read_64_pa (vmi l) pa") auto
    show ?thesis
    proof (cases "ra = return_addr l")
      case mismatch: False
      have g: "gt_breakpoint_cb l event =
                 ({VMI_EVENT_RESPONSE_TOGGLE_SINGLESTEP, VMI_EVENT_RESPONSE_VMM_PAGETABLE_ID},
                  event\<lparr>reinject := 0, slat_id := 0\<rparr>, l)"
        using False r tr ra mismatch by (simp add: gt_breakpoint_cb_def Let_def pa_def)
      have v: "vf_breakpoint_cb uninit s event =
                 ({VMI_EVENT_RESPONSE_TOGGLE_SINGLESTEP, VMI_EVENT_RESPONSE_VMM_PAGETABLE_ID},
                  event\<lparr>reinject := 0, slat_id := 0\<rparr>, s)"
        using False r' ra mismatch
        by (simp add: vf_breakpoint_cb_def Let_def T R kv rd pa_def)
      show ?thesis using g v agree by simp
    next
      case True
      from gt_call_site_recorded[OF False r] tr ra True inv obtain l' d where
        g: "gt_breakpoint_cb l event =
           ({VMI_EVENT_RESPONSE_TOGGLE_SINGLESTEP, VMI_EVENT_RESPONSE_VMM_PAGETABLE_ID},
            event\<lparr>reinject := 0, slat_id := 0\<rparr>, l')"
        and gp: "phys (vmi l') = fst (write_bytes (phys (vmi l)) pa (bytes_of_64 (trampoline_addr l)))"
        and gf: "translate_kv2p (vmi l') = translate_kv2p (vmi l)" "vcpu_rip (vmi l') = vcpu_rip (vmi l)"
          "trampoline_addr l' = trampoline_addr l" "return_addr l' = return_addr l"
        and gt: "gt_page_translation l' = gt_page_translation l"
          "gt_page_record_collection l' = gt_page_record_collection l" "page_store l' = page_store l"
        and gm: "gt_ret_addr_mapping l' =
           AList.update (rsp event)
             \<lparr>syscall_paddr_record = r, state_data = d, thread_id = rsp event\<rparr>
             (gt_ret_addr_mapping l)"
        unfolding pa_def by blast
      define s' where "s' = snd (snd (vf_breakpoint_cb uninit s event))"
      have v: "vf_breakpoint_cb uninit s event =
           ({VMI_EVENT_RESPONSE_TOGGLE_SINGLESTEP, VMI_EVENT_RESPONSE_VMM_PAGETABLE_ID},
            event\<lparr>reinject := 0, slat_id := 0\<rparr>, s')"
        using False r' by (simp add: s'_def vf_breakpoint_cb_def Let_def T)
      have sv: "phys (vf_vmi s') = fst (write_bytes (phys (vmi l)) pa (bytes_of_64 (trampoline_addr l)))"
        "translate_kv2p (vf_vmi s') = translate_kv2p (vmi l)"
        "vcpu_rip (vf_vmi s') = vcpu_rip (vmi l)"
        "vf_trampoline_addr s' = trampoline_addr l" "return_point_addr s' = return_addr l"
        "vf_ret_addr_mapping s' = (vf_ret_addr_mapping s)(rsp event \<mapsto> r)"
        "vf_page_translation s' = vf_page_translation s"
        "vf_page_record_collection s' = vf_page_record_collection s"
        "vf_page_store s' = vf_page_store s"
        using False r' ra True
        by (simp_all add: s'_def vf_breakpoint_cb_def Let_def T R kv rd pa_def write_64_phys
            write_64_other_fields ph rip)
      have "vf_paddr_record_from_pa s' x = vf_paddr_record_from_pa s x" for x
        by (simp only: vf_paddr_record_from_pa_def sv)
      then have tabs': "gt_paddr_record_from_pa l' x = vf_paddr_record_from_pa s' x"
        for x
        using tabs[of x] from_pa_tables[OF gt, of x] by simp
      have inv': "\<forall>(key, st) \<in> set (gt_ret_addr_mapping l'). thread_id st = key"
        using inv unfolding gm by (auto dest!: set_update_cases)
      have thr': "map_option syscall_paddr_record (map_of (gt_ret_addr_mapping l') x) =
                  vf_ret_addr_mapping s' x" for x
        using thr[of x] by (simp add: gm sv update_conv')
      have "variants_agree l' s'"
        unfolding variants_agree_def
        using tabs' inv' thr' by (simp add: gp gf sv)
      then show ?thesis using g v by simp
    qed
  next
    case True
    define tid where "tid = rsp event - 8"
    show ?thesis
    proof (cases "map_of (gt_ret_addr_mapping l) tid")
      case None
      then have n': "vf_ret_addr_mapping s tid = None" using thr[of tid] by simp
      have g: "gt_breakpoint_cb l event = (VMI_EVENT_RESPONSE_NONE, event\<lparr>reinject := 0\<rparr>, l)"
        using True None by (simp add: gt_breakpoint_cb_def Let_def width tid_def)
      have v: "vf_breakpoint_cb uninit s event = (VMI_EVENT_RESPONSE_NONE, event\<lparr>reinject := 0\<rparr>, s)"
        using True n' by (simp add: vf_breakpoint_cb_def Let_def T tid_def)
      show ?thesis using g v agree by simp
    next
      case (Some st)
      then have "(tid, st) \<in> set (gt_ret_addr_mapping l)" by (rule map_of_SomeD)
      then have own: "thread_id st = rsp event - return_addr_width l"
        using inv by (auto simp: width tid_def)
      have tr: "translate_kv2p (vmi l) (rsp event - return_addr_width l) \<noteq> 0"
        using return_slot True by (simp add: width)
      from Some have found: "map_of (gt_ret_addr_mapping l) (rsp event - return_addr_width l) = Some st"
        by (simp add: width tid_def)
      from gt_return_site_found[OF True found own tr] obtain l' where
        g: "gt_breakpoint_cb l event = (VMI_EVENT_RESPONSE_NONE, event\<lparr>reinject := 0\<rparr>, l')"
        and gp: "phys (vmi l') = fst (write_bytes (phys (vmi l)) (translate_kv2p (vmi l) tid)
                               (bytes_of_64 (return_addr l)))"
        and gf: "translate_kv2p (vmi l') = translate_kv2p (vmi l)"
          "vcpu_rip (vmi l') = (vcpu_rip (vmi l))(vcpu_id event := return_addr l)"
          "trampoline_addr l' = trampoline_addr l" "return_addr l' = return_addr l"
        and gt: "gt_page_translation l' = gt_page_translation l"
          "gt_page_record_collection l' = gt_page_record_collection l" "page_store l' = page_store l"
        and gm: "gt_ret_addr_mapping l' = AList.delete tid (gt_ret_addr_mapping l)"
        unfolding width tid_def by blast
      have r': "vf_ret_addr_mapping s tid = Some (syscall_paddr_record st)"
        using thr[of tid] Some by simp
      define s' where "s' = snd (snd (vf_breakpoint_cb uninit s event))"
      have v: "vf_breakpoint_cb uninit s event = (VMI_EVENT_RESPONSE_NONE, event\<lparr>reinject := 0\<rparr>, s')"
        using True r' by (simp add: s'_def vf_breakpoint_cb_def Let_def T tid_def)
      have sv: "phys (vf_vmi s') = fst (write_bytes (phys (vmi l)) (translate_kv2p (vmi l) tid)
                               (bytes_of_64 (return_addr l)))"
        "translate_kv2p (vf_vmi s') = translate_kv2p (vmi l)"
        "vcpu_rip (vf_vmi s') = (vcpu_rip (vmi l))(vcpu_id event := return_addr l)"
        "vf_trampoline_addr s' = trampoline_addr l" "return_point_addr s' = return_addr l"
        "vf_ret_addr_mapping s' = (vf_ret_addr_mapping s)(tid := None)"
        "vf_page_translation s' = vf_page_translation s"
        "vf_page_record_collection s' = vf_page_record_collection s"
        "vf_page_store s' = vf_page_store s"
        using True r'
        by (simp_all add: s'_def vf_breakpoint_cb_def Let_def T R kv tid_def write_64_phys
            write_64_other_fields ph rip vmi_set_vcpureg_rip_def)
      have "vf_paddr_record_from_pa s' x = vf_paddr_record_from_pa s x" for x
        by (simp only: vf_paddr_record_from_pa_def sv)
      then have tabs': "gt_paddr_record_from_pa l' x = vf_paddr_record_from_pa s' x"
        for x
        using tabs[of x] from_pa_tables[OF gt, of x] by simp
      have inv': "\<forall>(key, st) \<in> set (gt_ret_addr_mapping l'). thread_id st = key"
        using inv unfolding gm by (auto dest!: set_delete_subset)
      have thr': "map_option syscall_paddr_record (map_of (gt_ret_addr_mapping l') x) =
                  vf_ret_addr_mapping s' x" for x
        using thr[of x] by (simp add: gm sv delete_conv')
      have "variants_agree l' s'"
        unfolding variants_agree_def
        using tabs' inv' thr' by (simp add: gp gf sv)
      then show ?thesis using g v by simp
    qed
  qed
qed

text \<open>The example call-site trap: the thread's return slot holds the canonical return
  address, so both variants record the call and redirect the return.\<close>

lemma example_call_slot_accessible: "accessible_64 (vmi example_loop) 0x7000"
  by code_simp

theorem vf_breakpoint_cb_agrees_on_serviced_traps_witness:
  "variants_agree example_loop example_vf_state \<and>
   return_addr_width example_loop = 8 \<and>
   gla example_event \<noteq> trampoline_addr example_loop \<and>
   gt_paddr_record_from_va example_loop (gla example_event) = Some 2 \<and>
   translate_kv2p (vmi example_loop) (rsp example_event) = 0x7000 \<and>
   accessible_64 (vmi example_loop) 0x7000 \<and>
   fst (vf_breakpoint_cb 0 example_vf_state example_event)
     = fst (gt_breakpoint_cb example_loop example_event) \<and>
   fst (snd (vf_breakpoint_cb 0 example_vf_state example_event))
     = fst (snd (gt_breakpoint_cb example_loop example_event)) \<and>
   variants_agree (snd (snd (gt_breakpoint_cb example_loop example_event)))
                  (snd (snd (vf_breakpoint_cb 0 example_vf_state example_event)))"
proof -
  have w: "return_addr_width example_loop = 8" by (simp add: example_loop_def)
  have site: "gla example_event \<noteq> trampoline_addr example_loop"
    by (simp add: example_event_def example_loop_def)
  have r: "gt_paddr_record_from_va example_loop (gla example_event) = Some 2"
    by (simp add: example_from_va frame_offset_examples example_event_def)
  have kv: "translate_kv2p (vmi example_loop) (rsp example_event) = 0x7000"
    by (simp add: example_loop_def example_world_def example_event_def)
  have ours: "gla example_event = trampoline_addr example_loop \<or>
              gt_paddr_record_from_va example_loop (gla example_event) \<noteq> None"
    using r by simp
  have call_slot: "gla example_event = trampoline_addr example_loop \<or>
         (translate_kv2p (vmi example_loop) (rsp example_event) \<noteq> 0 \<and>
          accessible_64 (vmi example_loop) (translate_kv2p (vmi example_loop) (rsp example_event)))"
    by (simp add: kv example_call_slot_accessible)
  have return_slot: "gla example_event \<noteq> trampoline_addr example_loop \<or>
         translate_kv2p (vmi example_loop) (rsp example_event - 8) \<noteq> 0"
    using site by simp
  show ?thesis
    using vf_breakpoint_cb_agrees_on_serviced_traps[OF example_variants_agree w ours call_slot
        return_slot, of 0]
      example_variants_agree w site r kv example_call_slot_accessible
    by simp
qed


lemma example_recorded:
  "map_of (gt_ret_addr_mapping (snd (snd (gt_breakpoint_cb example_loop example_event)))) 0x7000
     = Some \<lparr>syscall_paddr_record = 2, state_data = 0x9A, thread_id = 0x7000\<rparr>"
  by code_simp

end
